theory Spec2Isabelle
  imports Main "HOL-Library.Sublist"
begin

section \<open>Text, numbers and paths\<close>

text \<open>
  Python's \<^verbatim>\<open>str\<close> is modelled by \<^typ>\<open>string\<close>; a character stands for its code point,
  and the model covers the code points below 256. \<open>isspace\<close> is the set of those code
  points that \<^verbatim>\<open>str.strip()\<close> removes: tab, line feed, vertical tab, form feed, carriage
  return, the four separators 28..31, space, next line (133) and no-break space (160).
\<close>

definition isspace :: "char \<Rightarrow> bool" where
  "isspace c = (of_char c \<in> set [9, 10, 11, 12, 13, 28, 29, 30, 31, 32, 133, 160 :: nat])"

text \<open>\<^verbatim>\<open>s.strip()\<close>: drop the whitespace at the front, then the whitespace at the back.\<close>

definition strip :: "string \<Rightarrow> string" where
  "strip s = rev (dropWhile isspace (rev (dropWhile isspace s)))"

text \<open>
  Reading a file in text mode with the default \<^verbatim>\<open>newline=None\<close> turns every \<^verbatim>\<open>\r\n\<close> and
  every remaining \<^verbatim>\<open>\r\<close> into \<^verbatim>\<open>\n\<close>.
\<close>

fun universal_newlines :: "string \<Rightarrow> string" where
  "universal_newlines [] = []"
| "universal_newlines [c] = (if c = CHR 0x0D then [CHR 0x0A] else [c])"
| "universal_newlines (c # d # cs) =
     (if c = CHR 0x0D \<and> d = CHR 0x0A then CHR 0x0A # universal_newlines cs
      else if c = CHR 0x0D then CHR 0x0A # universal_newlines (d # cs)
      else c # universal_newlines (d # cs))"

text \<open>\<^verbatim>\<open>str(n)\<close> of an integer, as the f-strings of the script format it.\<close>

fun digits :: "nat \<Rightarrow> string" where
  "digits n =
     (if n < 10 then [char_of (48 + n)]
      else digits (n div 10) @ [char_of (48 + n mod 10)])"

declare digits.simps [simp del]

definition str_int :: "int \<Rightarrow> string" where
  "str_int i = (if i < 0 then CHR ''-'' # digits (nat (- i)) else digits (nat i))"

text \<open>
  A path is the list of its components below the root. \<^verbatim>\<open>d / "a/b"\<close> of pathlib is
  \<open>d @ [a, b]\<close>, and a relative name given to \<^verbatim>\<open>open\<close> is resolved against the working
  directory of the process.
\<close>

type_synonym path = "string list"

section \<open>The file system, the network and what a run does to them\<close>

text \<open>
  What a path holds: a directory, a file, or an entry the process has no permission to
  open. A file is given by the text its bytes decode to in the encoding of the process,
  before any newline translation; \<open>Undecodable\<close> is a file whose bytes do not decode.
  (The texts of the model encode in UTF-8, and on POSIX writing in text mode stores the
  text as it is.)
\<close>

datatype node = Dir | File string | Undecodable | NoAccess

type_synonym filesystem = "path \<Rightarrow> node option"

text \<open>
  The exceptions that can escape a statement: those of \<^verbatim>\<open>open\<close> and \<^verbatim>\<open>read\<close>, those
  \<^verbatim>\<open>resp.json()\<close> raises besides \<^verbatim>\<open>JSONDecodeError\<close>, and those of the HTTP library
  (\<open>TransportError\<close>, with the name of the class). \<open>class_name\<close> is \<^verbatim>\<open>type(e).__name__\<close>.
\<close>

datatype exn =
    FileNotFoundError path
  | IsADirectoryError path
  | NotADirectoryError path
  | PermissionError path
  | UnicodeDecodeError path
  | ValueError string
  | RecursionError string
  | TransportError string

fun class_name :: "exn \<Rightarrow> string" where
  "class_name (FileNotFoundError p) = ''FileNotFoundError''"
| "class_name (IsADirectoryError p) = ''IsADirectoryError''"
| "class_name (NotADirectoryError p) = ''NotADirectoryError''"
| "class_name (PermissionError p) = ''PermissionError''"
| "class_name (UnicodeDecodeError p) = ''UnicodeDecodeError''"
| "class_name (ValueError m) = ''ValueError''"
| "class_name (RecursionError m) = ''RecursionError''"
| "class_name (TransportError n) = n"

record request =
  meth :: string
  url :: string
  headers :: "(string \<times> string) list"
  session :: bool

record response =
  status_code :: int
  resp_text :: string

text \<open>
  The server, seen from the scripts: a request either fails in transport (the exception
  of the HTTP library propagates) or yields a response.
\<close>

type_synonym server = "request \<Rightarrow> exn + response"

text \<open>
  What a run does, in the order it does it: requests sent, lines printed, files written
  (path and full new content).
\<close>

datatype event = Sent request | Printed string | Wrote path string

record world =
  fs :: filesystem
  trace :: "event list"

text \<open>
  A statement of the scripts is a function from the world to a result and the world
  after it; \<open>Inl e\<close> is the exception \<open>e\<close> escaping the statement. \<open>then_do\<close> is the
  sequencing of two statements: an exception of the first skips the second.
\<close>

type_synonym 'a stmt = "world \<Rightarrow> (exn + 'a) \<times> world"

definition then_do :: "'a stmt \<Rightarrow> ('a \<Rightarrow> 'b stmt) \<Rightarrow> 'b stmt" where
  "then_do m f w = (case m w of (Inl e, w') \<Rightarrow> (Inl e, w') | (Inr a, w') \<Rightarrow> f a w')"

text \<open>
  \<^verbatim>\<open>with open(p, "r") as f: f.read()\<close>: \<^verbatim>\<open>open\<close> raises for a missing path, a directory
  and a file without permission, \<^verbatim>\<open>read\<close> raises for bytes that do not decode, and the
  text comes back with its newlines translated.
\<close>

definition read_file :: "path \<Rightarrow> string stmt" where
  "read_file p w =
     (case fs w p of
        None \<Rightarrow> (Inl (FileNotFoundError p), w)
      | Some Dir \<Rightarrow> (Inl (IsADirectoryError p), w)
      | Some NoAccess \<Rightarrow> (Inl (PermissionError p), w)
      | Some Undecodable \<Rightarrow> (Inl (UnicodeDecodeError p), w)
      | Some (File c) \<Rightarrow> (Inr (universal_newlines c), w))"

text \<open>
  \<^verbatim>\<open>open(p, "w")\<close>: the exception it raises, if any. An existing file is truncated; a
  missing one is created in its directory, which must exist and admit new entries.
\<close>

definition open_w :: "filesystem \<Rightarrow> path \<Rightarrow> exn option" where
  "open_w f p =
     (case f p of
        Some Dir \<Rightarrow> Some (IsADirectoryError p)
      | Some NoAccess \<Rightarrow> Some (PermissionError p)
      | Some (File old) \<Rightarrow> None
      | Some Undecodable \<Rightarrow> None
      | None \<Rightarrow>
          (case f (butlast p) of
             None \<Rightarrow> Some (FileNotFoundError p)
           | Some (File x) \<Rightarrow> Some (NotADirectoryError p)
           | Some Undecodable \<Rightarrow> Some (NotADirectoryError p)
           | Some NoAccess \<Rightarrow> Some (PermissionError p)
           | Some Dir \<Rightarrow> None))"

text \<open>\<^verbatim>\<open>with open(p, "w") as f: f.write(c)\<close>: the file holds exactly \<open>c\<close> afterwards.\<close>

definition write_file :: "path \<Rightarrow> string \<Rightarrow> unit stmt" where
  "write_file p c w =
     (case open_w (fs w) p of
        Some e \<Rightarrow> (Inl e, w)
      | None \<Rightarrow> (Inr (), w\<lparr>fs := (fs w)(p \<mapsto> File c), trace := trace w @ [Wrote p c]\<rparr>))"

definition print :: "string \<Rightarrow> unit stmt" where
  "print s w = (Inr (), w\<lparr>trace := trace w @ [Printed s]\<rparr>)"

text \<open>
  \<^verbatim>\<open>client.get(u)\<close> on the \<^verbatim>\<open>requests.Session\<close> (field \<open>session\<close> true: the cookies
  of earlier responses go with the request) and \<^verbatim>\<open>requests.get(u, headers=h)\<close> (a request
  of its own).
\<close>

definition send :: "server \<Rightarrow> request \<Rightarrow> response stmt" where
  "send srv rq w = (srv rq, w\<lparr>trace := trace w @ [Sent rq]\<rparr>)"

definition client_get :: "server \<Rightarrow> string \<Rightarrow> response stmt" where
  "client_get srv u = send srv \<lparr>meth = ''GET'', url = u, headers = [], session = True\<rparr>"

definition requests_get :: "server \<Rightarrow> string \<Rightarrow> (string \<times> string) list \<Rightarrow> response stmt" where
  "requests_get srv u h = send srv \<lparr>meth = ''GET'', url = u, headers = h, session = False\<rparr>"

text \<open>
  The JSON library, a parameter of the model. \<open>loads\<close> is \<^verbatim>\<open>resp.json()\<close> on the body,
  with its three outcomes: the parsed value; an exception that is a \<^verbatim>\<open>JSONDecodeError\<close>,
  given by \<^verbatim>\<open>str(e)\<close>; any other exception (\<^verbatim>\<open>ValueError\<close> for an integer of more than 4300
  digits, \<^verbatim>\<open>RecursionError\<close> for deep nesting). \<open>dumps n d\<close> is the text
  \<^verbatim>\<open>json.dump(d, f, indent=n)\<close> writes for a value that \<open>loads\<close> returned; on such a
  value \<^verbatim>\<open>json.dump\<close> returns.
\<close>

datatype 'j parsed = Json 'j | JSONDecodeError string | Raised exn

record 'j json_lib =
  loads :: "string \<Rightarrow> 'j parsed"
  dumps :: "nat \<Rightarrow> 'j \<Rightarrow> string"

section \<open>start\_jupyterlab.py\<close>

text \<open>
  The part of the bootstrap the probe script depends on: the token of the started
  application is written to \<^verbatim>\<open>.secret\<close> in the directory of the script.
\<close>

definition start_jupyterlab :: "path \<Rightarrow> string \<Rightarrow> unit stmt" where
  "start_jupyterlab workspace_dir app_token = write_file (workspace_dir @ [''.secret'']) app_token"

section \<open>test.py\<close>

definition lab_url :: string where
  "lab_url = ''http://localhost:8888/''"

text \<open>\<^verbatim>\<open>with open(".secret", "r") as f: token = f.read().strip()\<close>\<close>

definition load_token :: "path \<Rightarrow> string stmt" where
  "load_token cwd = then_do (read_file (cwd @ [''.secret''])) (\<lambda>s w. (Inr (strip s), w))"

text \<open>
  \<open>filename\<close> is a single path component, as at every call of the script; the file is
  \<^verbatim>\<open>workspace_dir / f"samples/{filename}.json"\<close>.
\<close>

definition sample_path :: "path \<Rightarrow> string \<Rightarrow> path" where
  "sample_path workspace_dir filename = workspace_dir @ [''samples'', filename @ ''.json'']"

definition try_save :: "'j json_lib \<Rightarrow> path \<Rightarrow> response \<Rightarrow> string \<Rightarrow> unit stmt" where
  "try_save lib workspace_dir resp filename =
     (if status_code resp = 200 then
        (case loads lib (resp_text resp) of
           Json data \<Rightarrow> write_file (sample_path workspace_dir filename) (dumps lib 2 data)
         | JSONDecodeError e \<Rightarrow> print (''JSON decode error: '' @ e)
         | Raised x \<Rightarrow> (\<lambda>w. (Inl x, w)))
      else print (''Error: '' @ str_int (status_code resp)))"

definition api_names :: "string list" where
  "api_names = [''sessions'', ''kernels'', ''contents'', ''terminals'', ''kernelspecs'', ''status'', ''me'']"

text \<open>The body of the \<^verbatim>\<open>for i in [...]\<close> loop, and the loop.\<close>

definition probe :: "'j json_lib \<Rightarrow> path \<Rightarrow> server \<Rightarrow> string \<Rightarrow> string \<Rightarrow> unit stmt" where
  "probe lib workspace_dir srv u filename =
     then_do (client_get srv u) (\<lambda>resp. try_save lib workspace_dir resp filename)"

fun for_names :: "'j json_lib \<Rightarrow> path \<Rightarrow> server \<Rightarrow> string list \<Rightarrow> unit stmt" where
  "for_names lib workspace_dir srv [] = (\<lambda>w. (Inr (), w))"
| "for_names lib workspace_dir srv (i # is) =
     then_do (probe lib workspace_dir srv (lab_url @ ''/api/'' @ i) (''[GET]'' @ i))
       (\<lambda>_. for_names lib workspace_dir srv is)"

text \<open>\<^verbatim>\<open>byte_range = range(2)\<close>: \<open>start\<close> and \<open>stop\<close>.\<close>

definition byte_range :: "int \<times> int" where
  "byte_range = (0, 2)"

definition range_probe :: "server \<Rightarrow> string \<Rightarrow> string stmt" where
  "range_probe srv token =
     then_do
       (requests_get srv (lab_url @ ''/files/hello.txt?token='' @ token)
          [(''Range'', ''bytes='' @ str_int (fst byte_range) @ ''-'' @ str_int (snd byte_range - 1))])
       (\<lambda>resp w. (Inr (resp_text resp), w))"

text \<open>
  The script, cell by cell. \<open>workspace_dir\<close> is the directory of the script, \<open>cwd\<close> the
  working directory of the process that runs it.
\<close>

definition test_script :: "'j json_lib \<Rightarrow> path \<Rightarrow> path \<Rightarrow> server \<Rightarrow> string stmt" where
  "test_script lib workspace_dir cwd srv =
     then_do (load_token cwd) (\<lambda>token.
     then_do (client_get srv (lab_url @ ''?token='' @ token)) (\<lambda>resp.
     then_do (probe lib workspace_dir srv (lab_url @ ''/api/'') ''[GET]__root'') (\<lambda>_.
     then_do (probe lib workspace_dir srv (lab_url @ ''/lab/api/workspaces'') ''[GET]lab__workspaces'') (\<lambda>_.
     then_do (for_names lib workspace_dir srv api_names) (\<lambda>_.
     range_probe srv token)))))"

section \<open>Observations of a run\<close>

text \<open>The requests and the file writes of a trace, each in order.\<close>

fun sent_of :: "event list \<Rightarrow> request list" where
  "sent_of [] = []"
| "sent_of (Sent r # es) = r # sent_of es"
| "sent_of (Printed s # es) = sent_of es"
| "sent_of (Wrote p c # es) = sent_of es"

fun wrote_of :: "event list \<Rightarrow> (path \<times> string) list" where
  "wrote_of [] = []"
| "wrote_of (Sent r # es) = wrote_of es"
| "wrote_of (Printed s # es) = wrote_of es"
| "wrote_of (Wrote p c # es) = (p, c) # wrote_of es"

text \<open>
  The request \<open>client_get\<close> sends for a URL, and the request of the byte-range probe
  written out (lemma \<open>range_probe_eq\<close> shows that \<open>range_probe\<close> sends exactly this one).
\<close>

definition client_request :: "string \<Rightarrow> request" where
  "client_request u = \<lparr>meth = ''GET'', url = u, headers = [], session = True\<rparr>"

definition range_request :: "string \<Rightarrow> request" where
  "range_request token =
     \<lparr>meth = ''GET'', url = ''http://localhost:8888//files/hello.txt?token='' @ token,
      headers = [(''Range'', ''bytes=0-1'')], session = False\<rparr>"

text \<open>
  What \<open>try_save\<close> adds to the trace when it returns (one event), and the events of one
  probe: the request, then those of \<open>try_save\<close> if the server answered.
\<close>

definition save_events :: "'j json_lib \<Rightarrow> path \<Rightarrow> response \<Rightarrow> string \<Rightarrow> event list" where
  "save_events lib workspace_dir resp filename =
     (if status_code resp = 200 then
        (case loads lib (resp_text resp) of
           Json data \<Rightarrow> [Wrote (sample_path workspace_dir filename) (dumps lib 2 data)]
         | JSONDecodeError e \<Rightarrow> [Printed (''JSON decode error: '' @ e)]
         | Raised x \<Rightarrow> [])
      else [Printed (''Error: '' @ str_int (status_code resp))])"

definition probe_events :: "'j json_lib \<Rightarrow> path \<Rightarrow> server \<Rightarrow> string \<times> string \<Rightarrow> event list" where
  "probe_events lib workspace_dir srv p =
     Sent (client_request (fst p)) #
       (case srv (client_request (fst p)) of
          Inl e \<Rightarrow> []
        | Inr resp \<Rightarrow> save_events lib workspace_dir resp (snd p))"

text \<open>The file system after a list of writes, each replacing the content of its file.\<close>

definition after_writes :: "(path \<times> string) list \<Rightarrow> filesystem \<Rightarrow> filesystem" where
  "after_writes ws f = fold (\<lambda>pc g. g(fst pc \<mapsto> File (snd pc))) ws f"

text \<open>
  A world continues another when its trace extends the other's and its file system is
  the other's after the writes of the extension.
\<close>

definition continues :: "world \<Rightarrow> world \<Rightarrow> bool" where
  "continues w w' = (\<exists>es. trace w' = trace w @ es \<and> fs w' = after_writes (wrote_of es) (fs w))"

text \<open>
  The nine persisted probes of the script as one list of URL and file name: the two
  written out in the script, then the seven of the loop. \<open>run_probes\<close> runs such a list;
  lemma \<open>test_script_run\<close> shows the script is this run between its first and its last
  request.
\<close>

definition probes :: "(string \<times> string) list" where
  "probes =
     [(''http://localhost:8888//api/'', ''[GET]__root''),
      (''http://localhost:8888//lab/api/workspaces'', ''[GET]lab__workspaces''),
      (''http://localhost:8888//api/sessions'', ''[GET]sessions''),
      (''http://localhost:8888//api/kernels'', ''[GET]kernels''),
      (''http://localhost:8888//api/contents'', ''[GET]contents''),
      (''http://localhost:8888//api/terminals'', ''[GET]terminals''),
      (''http://localhost:8888//api/kernelspecs'', ''[GET]kernelspecs''),
      (''http://localhost:8888//api/status'', ''[GET]status''),
      (''http://localhost:8888//api/me'', ''[GET]me'')]"

fun run_probes :: "'j json_lib \<Rightarrow> path \<Rightarrow> server \<Rightarrow> (string \<times> string) list \<Rightarrow> unit stmt" where
  "run_probes lib workspace_dir srv [] = (\<lambda>w. (Inr (), w))"
| "run_probes lib workspace_dir srv (p # ps) =
     then_do (probe lib workspace_dir srv (fst p) (snd p)) (\<lambda>_. run_probes lib workspace_dir srv ps)"

definition script_trace :: "'j json_lib \<Rightarrow> path \<Rightarrow> server \<Rightarrow> string \<Rightarrow> event list" where
  "script_trace lib workspace_dir srv token =
     Sent (client_request (''http://localhost:8888/?token='' @ token)) #
     concat (map (probe_events lib workspace_dir srv) probes) @
     [Sent (range_request token)]"

text \<open>
  Properties of a URL the statements below speak of: the token as the query string
  \<^verbatim>\<open>?token=<token>\<close>, and a second slash right after host and port.
\<close>

definition token_param :: "string \<Rightarrow> string \<Rightarrow> bool" where
  "token_param token u = suffix (''?token='' @ token) u"

definition double_slash :: "string \<Rightarrow> bool" where
  "double_slash u = prefix ''http://localhost:8888//'' u"


section \<open>Concrete inputs\<close>

text \<open>
  An instance of the JSON library for the runs evaluated below. It follows Python on the
  bodies these runs use: the empty object and the empty array, which \<^verbatim>\<open>json.dump\<close> prints
  as \<^verbatim>\<open>{}\<close> and \<^verbatim>\<open>[]\<close> at any indentation; an opening bracket followed by 4301 digits, on
  which the conversion of the integer raises \<^verbatim>\<open>ValueError\<close>; and bodies that start with no
  JSON value, which are rejected with the message of the decoder.
\<close>

datatype sample_json = EmptyObject | EmptyArray

definition long_number_body :: string where
  "long_number_body = CHR ''['' # replicate 4301 (CHR ''1'')"

definition sample_lib :: "sample_json json_lib" where
  "sample_lib =
     \<lparr>loads = (\<lambda>s. if s = long_number_body
                   then Raised (ValueError (''Exceeds the limit (4300 digits) for integer string conversion: '' @
                          ''value has 4301 digits; use sys.set_int_max_str_digits() to increase the limit''))
                   else if s = ''{}'' then Json EmptyObject
                   else if s = ''[]'' then Json EmptyArray
                   else JSONDecodeError ''Expecting value: line 1 column 1 (char 0)''),
      dumps = (\<lambda>n d. case d of EmptyObject \<Rightarrow> ''{}'' | EmptyArray \<Rightarrow> ''[]'')\<rparr>"

text \<open>
  Two worlds with the scripts in directory \<^verbatim>\<open>/ws\<close> and the token \<^verbatim>\<open>abc\<close> in \<^verbatim>\<open>/ws/.secret\<close>:
  one with the output directory \<^verbatim>\<open>/ws/samples\<close>, one without. A server that gives every
  request the same answer.
\<close>

definition ready_world :: world where
  "ready_world =
     \<lparr>fs = [[''ws''] \<mapsto> Dir, [''ws'', ''samples''] \<mapsto> Dir, [''ws'', ''.secret''] \<mapsto> File ''abc''],
      trace = []\<rparr>"


definition const_server :: "int \<Rightarrow> string \<Rightarrow> server" where
  "const_server code body = (\<lambda>rq. Inr \<lparr>status_code = code, resp_text = body\<rparr>)"

text \<open>
  A server with one route that is not found, one that answers with a body that is no
  JSON, and the empty object everywhere else.
\<close>

definition mixed_server :: server where
  "mixed_server rq =
     (if url rq = ''http://localhost:8888//api/kernels'' then Inr \<lparr>status_code = 404, resp_text = ''x''\<rparr>
      else if url rq = ''http://localhost:8888//api/status'' then Inr \<lparr>status_code = 200, resp_text = ''not json''\<rparr>
      else Inr \<lparr>status_code = 200, resp_text = ''{}''\<rparr>)"

section \<open>Basic facts\<close>

lemma sent_of_append [simp]: "sent_of (xs @ ys) = sent_of xs @ sent_of ys"
  by (induction xs rule: sent_of.induct) simp_all

lemma wrote_of_append [simp]: "wrote_of (xs @ ys) = wrote_of xs @ wrote_of ys"
  by (induction xs rule: wrote_of.induct) simp_all

lemma then_do_assoc: "then_do (then_do m f) g = then_do m (\<lambda>a. then_do (f a) g)"
  by (rule ext) (simp add: then_do_def split: prod.splits sum.splits)

lemma range_header: "''bytes='' @ str_int (fst byte_range) @ ''-'' @ str_int (snd byte_range - 1) = ''bytes=0-1''"
  by code_simp

lemma range_probe_eq:
  "range_probe srv token w =
     ((case srv (range_request token) of Inl e \<Rightarrow> Inl e | Inr resp \<Rightarrow> Inr (resp_text resp)),
      w\<lparr>trace := trace w @ [Sent (range_request token)]\<rparr>)"
  unfolding range_probe_def range_header
  by (simp add: then_do_def requests_get_def send_def range_request_def lab_url_def split: sum.splits)

text \<open>
  Claim C7. The byte-range probe sends exactly one request, a GET for the static file
  \<^verbatim>\<open>/files/hello.txt\<close> with the header \<^verbatim>\<open>Range: bytes=0-1\<close> (the first two bytes), outside
  the session client, and writes no file, whatever the server does with the request.
\<close>

theorem range_probe_single_request_no_file:
  "fs (snd (range_probe srv token w)) = fs w \<and>
   wrote_of (trace (snd (range_probe srv token w))) = wrote_of (trace w) \<and>
   sent_of (trace (snd (range_probe srv token w))) =
     sent_of (trace w) @
       [\<lparr>meth = ''GET'', url = ''http://localhost:8888//files/hello.txt?token='' @ token,
         headers = [(''Range'', ''bytes=0-1'')], session = False\<rparr>]"
  by (simp add: range_probe_eq range_request_def)


lemma for_names_run:
  "for_names lib wd srv ns = run_probes lib wd srv (map (\<lambda>i. (lab_url @ ''/api/'' @ i, ''[GET]'' @ i)) ns)"
  by (induction ns) simp_all

lemma test_script_run:
  "test_script lib wd cwd srv =
     then_do (load_token cwd) (\<lambda>token.
     then_do (client_get srv (''http://localhost:8888/?token='' @ token)) (\<lambda>resp.
     then_do (run_probes lib wd srv probes) (\<lambda>_. range_probe srv token)))"
  by (simp add: test_script_def for_names_run probes_def api_names_def lab_url_def then_do_assoc)

lemma load_token_eq:
  "load_token cwd w =
     (case fs w (cwd @ [''.secret'']) of
        None \<Rightarrow> (Inl (FileNotFoundError (cwd @ [''.secret''])), w)
      | Some Dir \<Rightarrow> (Inl (IsADirectoryError (cwd @ [''.secret''])), w)
      | Some NoAccess \<Rightarrow> (Inl (PermissionError (cwd @ [''.secret''])), w)
      | Some Undecodable \<Rightarrow> (Inl (UnicodeDecodeError (cwd @ [''.secret''])), w)
      | Some (File c) \<Rightarrow> (Inr (strip (universal_newlines c)), w))"
  by (simp add: load_token_def then_do_def read_file_def split: option.splits node.splits)

lemma client_get_eq:
  "client_get srv u w = (srv (client_request u), w\<lparr>trace := trace w @ [Sent (client_request u)]\<rparr>)"
  by (simp add: client_get_def send_def client_request_def)

lemma try_save_eq:
  "try_save lib wd resp l w =
     (if status_code resp = 200 then
        (case loads lib (resp_text resp) of
           Json d \<Rightarrow> write_file (sample_path wd l) (dumps lib 2 d) w
         | JSONDecodeError e \<Rightarrow> (Inr (), w\<lparr>trace := trace w @ [Printed (''JSON decode error: '' @ e)]\<rparr>)
         | Raised x \<Rightarrow> (Inl x, w))
      else (Inr (), w\<lparr>trace := trace w @ [Printed (''Error: '' @ str_int (status_code resp))]\<rparr>))"
  by (simp add: try_save_def print_def split: parsed.splits)


lemma write_file_eq:
  "write_file p c w =
     (case open_w (fs w) p of
        Some e \<Rightarrow> (Inl e, w)
      | None \<Rightarrow> (Inr (), w\<lparr>fs := (fs w)(p \<mapsto> File c), trace := trace w @ [Wrote p c]\<rparr>))"
  by (simp add: write_file_def)

lemma try_save_trace:
  assumes "try_save lib wd resp l w = (r, w')"
  shows "(r = Inr () \<longrightarrow> trace w' = trace w @ save_events lib wd resp l) \<and>
         (r \<noteq> Inr () \<longrightarrow> w' = w)"
  using assms
  by (auto simp: try_save_eq save_events_def write_file_eq split: parsed.splits option.splits if_splits)

lemma probe_eq:
  "probe lib wd srv u l w =
     (case srv (client_request u) of
        Inl e \<Rightarrow> (Inl e, w\<lparr>trace := trace w @ [Sent (client_request u)]\<rparr>)
      | Inr resp \<Rightarrow> try_save lib wd resp l (w\<lparr>trace := trace w @ [Sent (client_request u)]\<rparr>))"
  by (simp add: probe_def then_do_def client_get_eq split: sum.splits)

lemma probe_trace:
  assumes "probe lib wd srv u l w = (r, w')"
  shows "prefix (trace w) (trace w') \<and>
         prefix (trace w') (trace w @ probe_events lib wd srv (u, l)) \<and>
         (r = Inr () \<longrightarrow> trace w' = trace w @ probe_events lib wd srv (u, l))"
proof (cases "srv (client_request u)")
  case (Inl e)
  with assms show ?thesis
    by (auto simp: probe_eq probe_events_def)
next
  case (Inr resp)
  let ?w1 = "w\<lparr>trace := trace w @ [Sent (client_request u)]\<rparr>"
  from assms Inr have ts: "try_save lib wd resp l ?w1 = (r, w')"
    by (simp add: probe_eq)
  show ?thesis
  proof (cases "r = Inr ()")
    case True
    with try_save_trace [OF ts] Inr show ?thesis
      by (simp add: probe_events_def)
  next
    case False
    with try_save_trace [OF ts] have "w' = ?w1" by simp
    with False Inr show ?thesis
      by (simp add: probe_events_def)
  qed
qed

lemma run_probes_trace:
  "run_probes lib wd srv ps w = (r, w') \<Longrightarrow>
     prefix (trace w) (trace w') \<and>
     prefix (trace w') (trace w @ concat (map (probe_events lib wd srv) ps)) \<and>
     (r = Inr () \<longrightarrow> trace w' = trace w @ concat (map (probe_events lib wd srv) ps))"
proof (induction ps arbitrary: w)
  case Nil
  then show ?case by auto
next
  case (Cons p ps)
  obtain r1 w1 where p1: "probe lib wd srv (fst p) (snd p) w = (r1, w1)"
    by (cases "probe lib wd srv (fst p) (snd p) w")
  from probe_trace [OF p1]
  have a: "prefix (trace w) (trace w1)"
    and b: "prefix (trace w1) (trace w @ probe_events lib wd srv p)"
    and c: "r1 = Inr () \<longrightarrow> trace w1 = trace w @ probe_events lib wd srv p"
    by simp_all
  show ?case
  proof (cases r1)
    case (Inl e)
    with Cons.prems p1 have "r = Inl e" "w' = w1"
      by (simp_all add: then_do_def)
    moreover from b have "prefix (trace w1) ((trace w @ probe_events lib wd srv p) @ concat (map (probe_events lib wd srv) ps))"
      by (rule prefix_prefix)
    ultimately show ?thesis using a by simp
  next
    case (Inr u)
    with Cons.prems p1 have rest: "run_probes lib wd srv ps w1 = (r, w')"
      by (simp add: then_do_def)
    from Inr c have tr1: "trace w1 = trace w @ probe_events lib wd srv p"
      by simp
    from Cons.IH [OF rest]
    have a': "prefix (trace w1) (trace w')"
      and b': "prefix (trace w') (trace w1 @ concat (map (probe_events lib wd srv) ps))"
      and c': "r = Inr () \<longrightarrow> trace w' = trace w1 @ concat (map (probe_events lib wd srv) ps)"
      by simp_all
    from a a' have "prefix (trace w) (trace w')"
      by (rule prefix_order.trans)
    with b' c' tr1 show ?thesis by simp
  qed
qed


lemma test_script_trace:
  assumes run: "test_script lib wd cwd srv w = (r, w')"
    and tok: "fs w (cwd @ [''.secret'']) = Some (File c)"
  shows "prefix (trace w) (trace w') \<and>
         prefix (trace w') (trace w @ script_trace lib wd srv (strip (universal_newlines c))) \<and>
         ((\<exists>t. r = Inr t) \<longrightarrow> trace w' = trace w @ script_trace lib wd srv (strip (universal_newlines c)))"
proof -
  let ?login = "client_request (''http://localhost:8888/?token='' @ strip (universal_newlines c))"
  let ?w1 = "w\<lparr>trace := trace w @ [Sent ?login]\<rparr>"
  let ?body = "concat (map (probe_events lib wd srv) probes)"
  show ?thesis
  proof (cases "srv ?login")
    case (Inl e)
    with run tok have "r = Inl e" "w' = ?w1"
      by (simp_all add: test_script_run then_do_def load_token_eq client_get_eq)
    then show ?thesis
      by (simp add: script_trace_def)
  next
    case (Inr resp)
    obtain r2 w2 where p: "run_probes lib wd srv probes ?w1 = (r2, w2)"
      by (cases "run_probes lib wd srv probes ?w1")
    from run_probes_trace [OF p]
    have a: "prefix (trace w @ [Sent ?login]) (trace w2)"
      and b: "prefix (trace w2) ((trace w @ [Sent ?login]) @ ?body)"
      and c: "r2 = Inr () \<longrightarrow> trace w2 = (trace w @ [Sent ?login]) @ ?body"
      by simp_all
    have pw: "prefix (trace w) (trace w @ [Sent ?login])"
      by simp
    show ?thesis
    proof (cases r2)
      case (Inl e)
      with run tok Inr p have "r = Inl e" "w' = w2"
        by (simp_all add: test_script_run then_do_def load_token_eq client_get_eq)
      moreover from b have "prefix (trace w2) (((trace w @ [Sent ?login]) @ ?body) @ [Sent (range_request (strip (universal_newlines c)))])"
        by (rule prefix_prefix)
      moreover from pw a have "prefix (trace w) (trace w2)"
        by (rule prefix_order.trans)
      ultimately show ?thesis
        by (simp add: script_trace_def)
    next
      case (Inr u)
      with run tok \<open>srv ?login = Inr resp\<close> p
      have "w' = w2\<lparr>trace := trace w2 @ [Sent (range_request (strip (universal_newlines c)))]\<rparr>"
        by (simp add: test_script_run then_do_def load_token_eq client_get_eq range_probe_eq)
      with Inr c show ?thesis
        by (simp add: script_trace_def)
    qed
  qed
qed

lemma test_script_no_token:
  assumes "\<forall>c. fs w (cwd @ [''.secret'']) \<noteq> Some (File c)"
  shows "\<exists>e. test_script lib wd cwd srv w = (Inl e, w)"
  using assms
  by (simp add: test_script_run then_do_def load_token_eq split: option.splits node.splits)


lemma sent_of_save_events [simp]: "sent_of (save_events lib wd resp l) = []"
  by (simp add: save_events_def split: parsed.splits)

lemma sent_of_probe_events [simp]:
  "sent_of (probe_events lib wd srv p) = [client_request (fst p)]"
  by (simp add: probe_events_def split: sum.splits)

lemma sent_of_concat_probe_events:
  "sent_of (concat (map (probe_events lib wd srv) ps)) = map (\<lambda>p. client_request (fst p)) ps"
  by (induction ps) simp_all

lemma sent_of_script_trace:
  "sent_of (script_trace lib wd srv token) =
     client_request (''http://localhost:8888/?token='' @ token) #
     map (\<lambda>p. client_request (fst p)) probes @ [range_request token]"
  by (simp add: script_trace_def sent_of_concat_probe_events)

lemma sent_of_prefix: "prefix xs ys \<Longrightarrow> prefix (sent_of xs) (sent_of ys)"
  by (auto simp: prefix_def)

lemma test_script_sent:
  assumes run: "test_script lib wd cwd srv w = (r, w')"
    and tok: "fs w (cwd @ [''.secret'']) = Some (File c)"
    and fresh: "trace w = []"
  shows "prefix (sent_of (trace w')) (sent_of (script_trace lib wd srv (strip (universal_newlines c))))"
    and "(\<exists>t. r = Inr t) \<longrightarrow> trace w' = script_trace lib wd srv (strip (universal_newlines c))"
  using test_script_trace [OF run tok] fresh
  by (simp_all add: sent_of_prefix)


section \<open>The requests of a run\<close>

lemma no_query_no_token: "CHR ''?'' \<notin> set u \<Longrightarrow> \<not> token_param token u"
  by (auto simp: token_param_def suffix_def)

lemma sent_of_script_trace_cases:
  assumes "rq \<in> set (sent_of (script_trace lib wd srv token))"
  obtains "rq = client_request (''http://localhost:8888/?token='' @ token)"
  | "rq = range_request token"
  | p where "p \<in> set probes" "rq = client_request (fst p)"
  using assms by (auto simp: sent_of_script_trace)

lemma probes_urls:
  "p \<in> set probes \<Longrightarrow>
     fst p \<in> set [''http://localhost:8888//api/'', ''http://localhost:8888//lab/api/workspaces'',
       ''http://localhost:8888//api/sessions'', ''http://localhost:8888//api/kernels'',
       ''http://localhost:8888//api/contents'', ''http://localhost:8888//api/terminals'',
       ''http://localhost:8888//api/kernelspecs'', ''http://localhost:8888//api/status'',
       ''http://localhost:8888//api/me''] \<and>
     CHR ''?'' \<notin> set (fst p) \<and> double_slash (fst p)"
  by (auto simp: probes_def double_slash_def)

text \<open>
  Claim C2, as amended. In a run that starts with an empty trace and a readable
  credential file of content \<open>c\<close>, every request that was sent is the first request of
  the run (the GET on the base URL with \<^verbatim>\<open>?token=<token>\<close>, through the session client),
  or the byte-range request (with \<^verbatim>\<open>?token=<token>\<close>, outside the session), or a GET
  through the session client, with no headers, to one of the nine probe URLs, which have
  no query string at all. So the token is a query parameter of the first and of the
  byte-range request only.
\<close>

theorem token_only_on_first_and_last_request:
  assumes run: "test_script lib wd cwd srv w = (r, w')"
    and tok: "fs w (cwd @ [''.secret'']) = Some (File c)"
    and fresh: "trace w = []"
    and rq: "rq \<in> set (sent_of (trace w'))"
  shows "(rq = \<lparr>meth = ''GET'', url = ''http://localhost:8888/?token='' @ strip (universal_newlines c),
                 headers = [], session = True\<rparr> \<or>
          rq = \<lparr>meth = ''GET'',
                 url = ''http://localhost:8888//files/hello.txt?token='' @ strip (universal_newlines c),
                 headers = [(''Range'', ''bytes=0-1'')], session = False\<rparr> \<or>
          (meth rq = ''GET'' \<and> session rq \<and> headers rq = [] \<and> CHR ''?'' \<notin> set (url rq) \<and>
           url rq \<in> set [''http://localhost:8888//api/'', ''http://localhost:8888//lab/api/workspaces'',
             ''http://localhost:8888//api/sessions'', ''http://localhost:8888//api/kernels'',
             ''http://localhost:8888//api/contents'', ''http://localhost:8888//api/terminals'',
             ''http://localhost:8888//api/kernelspecs'', ''http://localhost:8888//api/status'',
             ''http://localhost:8888//api/me''])) \<and>
         (token_param (strip (universal_newlines c)) (url rq) \<longleftrightarrow>
           rq = \<lparr>meth = ''GET'', url = ''http://localhost:8888/?token='' @ strip (universal_newlines c),
                  headers = [], session = True\<rparr> \<or>
           rq = \<lparr>meth = ''GET'',
                  url = ''http://localhost:8888//files/hello.txt?token='' @ strip (universal_newlines c),
                  headers = [(''Range'', ''bytes=0-1'')], session = False\<rparr>)"
proof -
  let ?t = "strip (universal_newlines c)"
  from test_script_sent(1) [OF run tok fresh] rq
  have "rq \<in> set (sent_of (script_trace lib wd srv ?t))"
    by (auto simp: prefix_def)
  then show ?thesis
  proof (cases rule: sent_of_script_trace_cases)
    case 1
    then show ?thesis
      by (simp add: client_request_def token_param_def suffix_def)
  next
    case 2
    then show ?thesis
      by (simp add: range_request_def token_param_def suffix_def)
  next
    case (3 p)
    from probes_urls [OF 3(1)]
    have u: "fst p \<in> set [''http://localhost:8888//api/'', ''http://localhost:8888//lab/api/workspaces'',
       ''http://localhost:8888//api/sessions'', ''http://localhost:8888//api/kernels'',
       ''http://localhost:8888//api/contents'', ''http://localhost:8888//api/terminals'',
       ''http://localhost:8888//api/kernelspecs'', ''http://localhost:8888//api/status'',
       ''http://localhost:8888//api/me'']"
      and q: "CHR ''?'' \<notin> set (fst p)"
      by simp_all
    from q have nt: "\<not> token_param ?t (fst p)"
      by (rule no_query_no_token)
    from q have ne: "fst p \<noteq> ''http://localhost:8888/?token='' @ ?t"
      by auto
    from 3(2) have flds: "meth rq = ''GET''" "session rq" "headers rq = []" "url rq = fst p"
      by (simp_all add: client_request_def)
    from flds u q have A: "meth rq = ''GET'' \<and> session rq \<and> headers rq = [] \<and> CHR ''?'' \<notin> set (url rq) \<and>
           url rq \<in> set [''http://localhost:8888//api/'', ''http://localhost:8888//lab/api/workspaces'',
             ''http://localhost:8888//api/sessions'', ''http://localhost:8888//api/kernels'',
             ''http://localhost:8888//api/contents'', ''http://localhost:8888//api/terminals'',
             ''http://localhost:8888//api/kernelspecs'', ''http://localhost:8888//api/status'',
             ''http://localhost:8888//api/me'']"
      by simp
    from flds ne have B: "rq \<noteq> \<lparr>meth = ''GET'', url = ''http://localhost:8888/?token='' @ ?t,
                  headers = [], session = True\<rparr>"
      by auto
    from flds have C: "rq \<noteq> \<lparr>meth = ''GET'',
                  url = ''http://localhost:8888//files/hello.txt?token='' @ ?t,
                  headers = [(''Range'', ''bytes=0-1'')], session = False\<rparr>"
      by auto
    from nt flds have D: "\<not> token_param ?t (url rq)"
      by simp
    from A B C D show ?thesis
      by blast
  qed
qed

section \<open>Concrete runs\<close>

lemma str_int_404: "str_int 404 = ''404''"
  by code_simp

lemma strip_abc: "strip ''abc'' = ''abc''"
  by (simp add: strip_def isspace_def)

lemmas run_defs =
  test_script_def then_do_def load_token_def read_file_def client_get_def send_def
  probe_def try_save_def print_def write_file_def open_w_def sample_path_def api_names_def
  range_probe_eq lab_url_def

lemma sent_404_ready:
  "sent_of (trace (snd (test_script sample_lib [''ws''] [''ws''] (const_server 404 ''x'') ready_world))) =
     [client_request ''http://localhost:8888/?token=abc'',
      client_request ''http://localhost:8888//api/'',
      client_request ''http://localhost:8888//lab/api/workspaces'',
      client_request ''http://localhost:8888//api/sessions'',
      client_request ''http://localhost:8888//api/kernels'',
      client_request ''http://localhost:8888//api/contents'',
      client_request ''http://localhost:8888//api/terminals'',
      client_request ''http://localhost:8888//api/kernelspecs'',
      client_request ''http://localhost:8888//api/status'',
      client_request ''http://localhost:8888//api/me'',
      range_request ''abc'']"
  by (simp add: run_defs ready_world_def const_server_def strip_abc str_int_404
      client_request_def range_request_def)

text \<open>
  The claim as stated fails: the second request of a run is the root info probe, and its
  URL has no token.
\<close>

theorem root_probe_without_token:
  "url (sent_of (trace (snd (test_script sample_lib [''ws''] [''ws''] (const_server 404 ''x'') ready_world))) ! 1)
     = ''http://localhost:8888//api/'' \<and>
   \<not> token_param ''abc'' ''http://localhost:8888//api/''"
  by (simp add: sent_404_ready token_param_def suffix_def client_request_def)

theorem token_only_on_first_and_last_request_witness:
  "client_request ''http://localhost:8888/?token=abc''
     \<in> set (sent_of (trace (snd (test_script sample_lib [''ws''] [''ws''] (const_server 404 ''x'') ready_world)))) \<and>
   token_param ''abc'' ''http://localhost:8888/?token=abc'' \<and>
   client_request ''http://localhost:8888//api/me''
     \<in> set (sent_of (trace (snd (test_script sample_lib [''ws''] [''ws''] (const_server 404 ''x'') ready_world)))) \<and>
   \<not> token_param ''abc'' ''http://localhost:8888//api/me'' \<and>
   CHR ''?'' \<notin> set ''http://localhost:8888//api/me''"
proof -
  let ?run = "test_script sample_lib [''ws''] [''ws''] (const_server 404 ''x'') ready_world"
  have run: "?run = (fst ?run, snd ?run)"
    by simp
  have tok: "fs ready_world ([''ws''] @ [''.secret'']) = Some (File ''abc'')"
    by (simp add: ready_world_def)
  have fresh: "trace ready_world = []"
    by (simp add: ready_world_def)
  have first: "client_request ''http://localhost:8888/?token=abc'' \<in> set (sent_of (trace (snd ?run)))"
    by (simp add: sent_404_ready)
  have me: "client_request ''http://localhost:8888//api/me'' \<in> set (sent_of (trace (snd ?run)))"
    by (simp add: sent_404_ready)
  from token_only_on_first_and_last_request [OF run tok fresh first]
    token_only_on_first_and_last_request [OF run tok fresh me]
  show ?thesis
    using first me by (simp add: strip_abc client_request_def)
qed

section \<open>The URLs of a run\<close>

text \<open>
  Claim C10, as amended. In a run that starts with an empty trace and a readable
  credential file, every request that was sent has a second slash right after host and
  port, the byte-range request included, except the first request of the run (the GET on
  the base URL with the token).
\<close>

theorem double_slash_on_all_but_first_request:
  assumes run: "test_script lib wd cwd srv w = (r, w')"
    and tok: "fs w (cwd @ [''.secret'']) = Some (File c)"
    and fresh: "trace w = []"
    and rq: "rq \<in> set (sent_of (trace w'))"
  shows "double_slash (url rq) \<longleftrightarrow>
           rq \<noteq> \<lparr>meth = ''GET'', url = ''http://localhost:8888/?token='' @ strip (universal_newlines c),
                   headers = [], session = True\<rparr>"
proof -
  from test_script_sent(1) [OF run tok fresh] rq
  have "rq \<in> set (sent_of (script_trace lib wd srv (strip (universal_newlines c))))"
    by (auto simp: prefix_def)
  then show ?thesis
  proof (cases rule: sent_of_script_trace_cases)
    case 1
    then show ?thesis
      by (simp add: client_request_def double_slash_def)
  next
    case 2
    then show ?thesis
      by (simp add: range_request_def double_slash_def)
  next
    case (3 p)
    from probes_urls [OF 3(1)] have "double_slash (fst p)"
      by simp
    with 3(2) show ?thesis
      by (auto simp: client_request_def double_slash_def)
  qed
qed

theorem double_slash_on_all_but_first_request_witness:
  "range_request ''abc''
     \<in> set (sent_of (trace (snd (test_script sample_lib [''ws''] [''ws''] (const_server 404 ''x'') ready_world)))) \<and>
   double_slash (url (range_request ''abc'')) \<and>
   client_request ''http://localhost:8888/?token=abc''
     \<in> set (sent_of (trace (snd (test_script sample_lib [''ws''] [''ws''] (const_server 404 ''x'') ready_world)))) \<and>
   \<not> double_slash ''http://localhost:8888/?token=abc''"
proof -
  let ?run = "test_script sample_lib [''ws''] [''ws''] (const_server 404 ''x'') ready_world"
  have run: "?run = (fst ?run, snd ?run)"
    by simp
  have tok: "fs ready_world ([''ws''] @ [''.secret'']) = Some (File ''abc'')"
    by (simp add: ready_world_def)
  have fresh: "trace ready_world = []"
    by (simp add: ready_world_def)
  have first: "client_request ''http://localhost:8888/?token=abc'' \<in> set (sent_of (trace (snd ?run)))"
    by (simp add: sent_404_ready)
  have last: "range_request ''abc'' \<in> set (sent_of (trace (snd ?run)))"
    by (simp add: sent_404_ready)
  from double_slash_on_all_but_first_request [OF run tok fresh first]
    double_slash_on_all_but_first_request [OF run tok fresh last]
  show ?thesis
    using first last by (simp add: strip_abc client_request_def range_request_def)
qed

text \<open>
  The claim as stated fails: the URL of the byte-range request, the last request of a
  run, has the double slash too.
\<close>

theorem byte_range_url_has_double_slash:
  "url (last (sent_of (trace (snd (test_script sample_lib [''ws''] [''ws''] (const_server 404 ''x'') ready_world)))))
     = ''http://localhost:8888//files/hello.txt?token=abc'' \<and>
   double_slash ''http://localhost:8888//files/hello.txt?token=abc''"
  by (simp add: sent_404_ready range_request_def double_slash_def)

section \<open>A run without a credential\<close>

text \<open>
  Claim C6, as amended. When the credential file is absent or cannot be read (no
  permission, a directory, bytes that do not decode), the run ends with the built-in
  exception of \<^verbatim>\<open>open\<close> or \<^verbatim>\<open>read\<close>: \<^verbatim>\<open>FileNotFoundError\<close>, \<^verbatim>\<open>PermissionError\<close>,
  \<^verbatim>\<open>IsADirectoryError\<close> or \<^verbatim>\<open>UnicodeDecodeError\<close>. The world is as before: no request was
  sent, no file written, nothing printed.
\<close>

theorem missing_credential_aborts_before_probes:
  "(fs w (cwd @ [''.secret'']) = None \<longrightarrow>
      test_script lib wd cwd srv w = (Inl (FileNotFoundError (cwd @ [''.secret''])), w)) \<and>
   (fs w (cwd @ [''.secret'']) = Some NoAccess \<longrightarrow>
      test_script lib wd cwd srv w = (Inl (PermissionError (cwd @ [''.secret''])), w)) \<and>
   (fs w (cwd @ [''.secret'']) = Some Dir \<longrightarrow>
      test_script lib wd cwd srv w = (Inl (IsADirectoryError (cwd @ [''.secret''])), w)) \<and>
   (fs w (cwd @ [''.secret'']) = Some Undecodable \<longrightarrow>
      test_script lib wd cwd srv w = (Inl (UnicodeDecodeError (cwd @ [''.secret''])), w)) \<and>
   ((\<forall>c. fs w (cwd @ [''.secret'']) \<noteq> Some (File c)) \<longrightarrow>
      (\<exists>e. test_script lib wd cwd srv w = (Inl e, w) \<and>
           class_name e \<in> set [''FileNotFoundError'', ''PermissionError'', ''IsADirectoryError'',
             ''UnicodeDecodeError'']))"
  by (simp add: test_script_run then_do_def load_token_eq split: option.splits node.splits)

theorem missing_credential_aborts_before_probes_witness:
  "test_script sample_lib [''ws''] [''ws''] (const_server 200 ''{}'')
       \<lparr>fs = [[''ws'', ''.secret''] \<mapsto> NoAccess], trace = []\<rparr>
     = (Inl (PermissionError [''ws'', ''.secret'']), \<lparr>fs = [[''ws'', ''.secret''] \<mapsto> NoAccess], trace = []\<rparr>) \<and>
   test_script sample_lib [''ws''] [''ws''] (const_server 200 ''{}'')
       \<lparr>fs = [[''ws'', ''.secret''] \<mapsto> Undecodable], trace = []\<rparr>
     = (Inl (UnicodeDecodeError [''ws'', ''.secret'']), \<lparr>fs = [[''ws'', ''.secret''] \<mapsto> Undecodable], trace = []\<rparr>)"
  using missing_credential_aborts_before_probes
    [of "\<lparr>fs = [[''ws'', ''.secret''] \<mapsto> NoAccess], trace = []\<rparr>" "[''ws'']" sample_lib "[''ws'']" "const_server 200 ''{}''"]
    missing_credential_aborts_before_probes
    [of "\<lparr>fs = [[''ws'', ''.secret''] \<mapsto> Undecodable], trace = []\<rparr>" "[''ws'']" sample_lib "[''ws'']" "const_server 200 ''{}''"]
  by simp

text \<open>
  The claim as stated fails: the scripts define no \<^verbatim>\<open>MissingCredentialError\<close>. With no
  credential file the exception that ends the run is the built-in \<^verbatim>\<open>FileNotFoundError\<close>.
\<close>

theorem missing_credential_raises_file_not_found:
  "test_script sample_lib [''ws''] [''ws''] (const_server 200 ''{}'') \<lparr>fs = Map.empty, trace = []\<rparr>
     = (Inl (FileNotFoundError [''ws'', ''.secret'']), \<lparr>fs = Map.empty, trace = []\<rparr>) \<and>
   class_name (FileNotFoundError [''ws'', ''.secret'']) = ''FileNotFoundError'' \<and>
   class_name (FileNotFoundError [''ws'', ''.secret'']) \<noteq> ''MissingCredentialError''"
  by (simp add: test_script_run then_do_def load_token_eq)

section \<open>The credential file\<close>

lemma strip_core:
  assumes pre: "list_all isspace pre" and post: "list_all isspace post"
    and ne: "s \<noteq> []" and h: "\<not> isspace (hd s)" and l: "\<not> isspace (last s)"
  shows "strip (pre @ s @ post) = s"
proof -
  from ne l have bk: "dropWhile isspace (rev s) = rev s"
    by (cases "rev s") (simp_all add: last_rev [symmetric] del: last_rev)
  from pre have "dropWhile isspace (pre @ s @ post) = dropWhile isspace (s @ post)"
    by (simp add: dropWhile_append2 list_all_iff)
  also from ne h have "\<dots> = s @ post"
    by (cases s) simp_all
  finally have "strip (pre @ s @ post) = rev (dropWhile isspace (rev post @ rev s))"
    by (simp add: strip_def)
  also have "dropWhile isspace (rev post @ rev s) = dropWhile isspace (rev s)"
  proof (rule dropWhile_append2)
    fix x
    assume "x \<in> set (rev post)"
    with post show "isspace x"
      by (simp add: list_all_iff)
  qed
  finally show ?thesis
    by (simp add: bk)
qed

lemma isspace_newlines: "isspace (CHR 0x0D)" "isspace (CHR 0x0A)"
  by (simp_all add: isspace_def)

lemma universal_newlines_no_cr: "CHR 0x0D \<notin> set s \<Longrightarrow> universal_newlines s = s"
  by (induction s rule: universal_newlines.induct) auto

lemma universal_newlines_append:
  "xs = [] \<or> last xs \<noteq> CHR 0x0D \<or> ys = [] \<or> hd ys \<noteq> CHR 0x0A \<Longrightarrow>
     universal_newlines (xs @ ys) = universal_newlines xs @ universal_newlines ys"
proof (induction xs rule: universal_newlines.induct)
  case 1
  show ?case by simp
next
  case (2 c)
  then show ?case
    by (cases ys) auto
next
  case (3 c d cs)
  then show ?case
    by (cases "cs = []") (auto split: if_splits)
qed

lemma universal_newlines_space:
  "list_all isspace s \<Longrightarrow> list_all isspace (universal_newlines s)"
  by (induction s rule: universal_newlines.induct) (auto simp: isspace_newlines)

lemma universal_newlines_ends:
  "s \<noteq> [] \<Longrightarrow> universal_newlines s \<noteq> [] \<and>
     (hd s \<noteq> CHR 0x0D \<longrightarrow> hd (universal_newlines s) = hd s) \<and>
     (last s \<noteq> CHR 0x0D \<longrightarrow> last (universal_newlines s) = last s)"
  by (induction s rule: universal_newlines.induct) (auto split: if_splits)

lemma load_core:
  assumes pre: "list_all isspace pre" and post: "list_all isspace post"
    and ne: "s \<noteq> []" and h: "\<not> isspace (hd s)" and l: "\<not> isspace (last s)"
  shows "strip (universal_newlines (pre @ s @ post)) = universal_newlines s"
proof -
  from h l have hc: "hd s \<noteq> CHR 0x0D" and hl: "hd s \<noteq> CHR 0x0A" and lc: "last s \<noteq> CHR 0x0D"
    using isspace_newlines by auto
  from ne hl have "hd (s @ post) \<noteq> CHR 0x0A"
    by simp
  then have "universal_newlines (pre @ s @ post) = universal_newlines pre @ universal_newlines (s @ post)"
    by (simp add: universal_newlines_append)
  also from lc have "universal_newlines (s @ post) = universal_newlines s @ universal_newlines post"
    by (simp add: universal_newlines_append)
  finally have e: "universal_newlines (pre @ s @ post) =
      universal_newlines pre @ universal_newlines s @ universal_newlines post" .
  from universal_newlines_ends [OF ne] hc lc h l
  have "universal_newlines s \<noteq> []" "\<not> isspace (hd (universal_newlines s))"
    "\<not> isspace (last (universal_newlines s))"
    by simp_all
  with pre post show ?thesis
    unfolding e by (intro strip_core universal_newlines_space)
qed

lemma strip_no_space:
  assumes "list_all (\<lambda>c. \<not> isspace c) s"
  shows "strip s = s"
proof (cases s)
  case Nil
  then show ?thesis by (simp add: strip_def)
next
  case (Cons a as)
  with assms have "\<not> isspace (hd s)" "\<not> isspace (last s)" "s \<noteq> []"
    by (auto simp: list_all_iff)
  with strip_core [of "[]" "[]" s] show ?thesis
    by simp
qed

lemma no_space_no_cr: "list_all (\<lambda>c. \<not> isspace c) s \<Longrightarrow> CHR 0x0D \<notin> set s"
  using isspace_newlines by (auto simp: list_all_iff)

lemma start_jupyterlab_eq:
  "start_jupyterlab sd tok w =
     (case open_w (fs w) (sd @ [''.secret'']) of
        Some e \<Rightarrow> (Inl e, w)
      | None \<Rightarrow> (Inr (), w\<lparr>fs := (fs w)(sd @ [''.secret''] \<mapsto> File tok),
                           trace := trace w @ [Wrote (sd @ [''.secret'']) tok]\<rparr>))"
  by (simp add: start_jupyterlab_def write_file_eq)

text \<open>
  Claim C5, as amended. The loader returns the content of the credential file with
  every \<^verbatim>\<open>\r\n\<close> and \<^verbatim>\<open>\r\<close> turned into \<^verbatim>\<open>\n\<close> and the whitespace at both ends stripped. When
  the content is whitespace, then a non-empty \<open>s\<close> that neither starts nor ends with
  whitespace, then whitespace (so that \<open>s\<close> is the content stripped), the loader returns
  \<open>s\<close> with its newlines translated, and exactly \<open>s\<close> when \<open>s\<close> has no carriage return. A
  whitespace-free string written by the bootstrap and loaded from the same directory
  comes back unchanged.
\<close>

theorem load_token_returns_trimmed_content:
  "(\<forall>c. fs w (cwd @ [''.secret'']) = Some (File c) \<longrightarrow>
        load_token cwd w = (Inr (strip (universal_newlines c)), w)) \<and>
   (\<forall>pre s post. list_all isspace pre \<and> list_all isspace post \<and>
        s \<noteq> [] \<and> \<not> isspace (hd s) \<and> \<not> isspace (last s) \<longrightarrow>
        strip (pre @ s @ post) = s \<and>
        (fs w (cwd @ [''.secret'']) = Some (File (pre @ s @ post)) \<longrightarrow>
           load_token cwd w = (Inr (universal_newlines s), w) \<and>
           (CHR 0x0D \<notin> set s \<longrightarrow> load_token cwd w = (Inr s, w)))) \<and>
   (\<forall>s w1. list_all (\<lambda>c. \<not> isspace c) s \<and> start_jupyterlab cwd s w = (Inr (), w1) \<longrightarrow>
        load_token cwd w1 = (Inr s, w1))"
proof (intro conjI allI impI)
  fix c
  assume "fs w (cwd @ [''.secret'']) = Some (File c)"
  then show "load_token cwd w = (Inr (strip (universal_newlines c)), w)"
    by (simp add: load_token_eq)
next
  fix pre s post
  assume "list_all isspace pre \<and> list_all isspace post \<and>
        s \<noteq> [] \<and> \<not> isspace (hd s) \<and> \<not> isspace (last s)"
  then show "strip (pre @ s @ post) = s"
    by (simp add: strip_core)
next
  fix pre s post
  assume a: "list_all isspace pre \<and> list_all isspace post \<and>
        s \<noteq> [] \<and> \<not> isspace (hd s) \<and> \<not> isspace (last s)"
    and f: "fs w (cwd @ [''.secret'']) = Some (File (pre @ s @ post))"
  from a have "strip (universal_newlines (pre @ s @ post)) = universal_newlines s"
    by (simp add: load_core)
  with f show "load_token cwd w = (Inr (universal_newlines s), w)"
    by (simp add: load_token_eq)
next
  fix pre s post
  assume a: "list_all isspace pre \<and> list_all isspace post \<and>
        s \<noteq> [] \<and> \<not> isspace (hd s) \<and> \<not> isspace (last s)"
    and f: "fs w (cwd @ [''.secret'']) = Some (File (pre @ s @ post))"
    and n: "CHR 0x0D \<notin> set s"
  from a have "strip (universal_newlines (pre @ s @ post)) = universal_newlines s"
    by (simp add: load_core)
  with f n show "load_token cwd w = (Inr s, w)"
    by (simp add: load_token_eq universal_newlines_no_cr)
next
  fix s w1
  assume a: "list_all (\<lambda>c. \<not> isspace c) s \<and> start_jupyterlab cwd s w = (Inr (), w1)"
  then have "fs w1 (cwd @ [''.secret'']) = Some (File s)"
    by (auto simp: start_jupyterlab_eq split: option.splits)
  with a show "load_token cwd w1 = (Inr s, w1)"
    by (simp add: load_token_eq strip_no_space universal_newlines_no_cr no_space_no_cr)
qed

theorem load_token_returns_trimmed_content_witness:
  "load_token [''ws''] \<lparr>fs = [[''ws'', ''.secret''] \<mapsto> File ('' '' @ ''3f9a'' @ [CHR 0x0D, CHR 0x0A])], trace = []\<rparr>
     = (Inr ''3f9a'', \<lparr>fs = [[''ws'', ''.secret''] \<mapsto> File ('' '' @ ''3f9a'' @ [CHR 0x0D, CHR 0x0A])], trace = []\<rparr>) \<and>
   strip ('' '' @ ''3f9a'' @ [CHR 0x0D, CHR 0x0A]) = ''3f9a'' \<and>
   load_token [''ws''] (snd (start_jupyterlab [''ws''] ''3f9a'' \<lparr>fs = [[''ws''] \<mapsto> Dir], trace = []\<rparr>))
     = (Inr ''3f9a'', snd (start_jupyterlab [''ws''] ''3f9a'' \<lparr>fs = [[''ws''] \<mapsto> Dir], trace = []\<rparr>))"
proof -
  let ?w = "\<lparr>fs = [[''ws'', ''.secret''] \<mapsto> File ('' '' @ ''3f9a'' @ [CHR 0x0D, CHR 0x0A])], trace = []\<rparr>"
  let ?v = "\<lparr>fs = [[''ws''] \<mapsto> Dir], trace = []\<rparr>"
  have f: "fs ?w ([''ws''] @ [''.secret'']) = Some (File ('' '' @ ''3f9a'' @ [CHR 0x0D, CHR 0x0A]))"
    by simp
  have b: "start_jupyterlab [''ws''] ''3f9a'' ?v = (Inr (), snd (start_jupyterlab [''ws''] ''3f9a'' ?v))"
    by (simp add: start_jupyterlab_eq open_w_def)
  have nosp: "list_all (\<lambda>c. \<not> isspace c) ''3f9a''"
    by (simp add: isspace_def)
  have sp: "list_all isspace '' ''" "list_all isspace [CHR 0x0D, CHR 0x0A]"
    "''3f9a'' \<noteq> []" "\<not> isspace (hd ''3f9a'')" "\<not> isspace (last ''3f9a'')"
    "CHR 0x0D \<notin> set ''3f9a''"
    by (simp_all add: isspace_def)
  from load_token_returns_trimmed_content [of ?w "[''ws'']"] sp f
  have 1: "load_token [''ws''] ?w = (Inr ''3f9a'', ?w)"
    by blast
  from load_token_returns_trimmed_content [of ?w "[''ws'']"] sp
  have 2: "strip ('' '' @ ''3f9a'' @ [CHR 0x0D, CHR 0x0A]) = ''3f9a''"
    by blast
  from load_token_returns_trimmed_content [of ?v "[''ws'']"] nosp b
  have 3: "load_token [''ws''] (snd (start_jupyterlab [''ws''] ''3f9a'' ?v))
     = (Inr ''3f9a'', snd (start_jupyterlab [''ws''] ''3f9a'' ?v))"
    by blast
  from 1 2 3 show ?thesis
    by blast
qed

text \<open>
  The claim as stated fails: a carriage return inside the content is no leading or
  trailing whitespace, so stripping keeps it, but the loader returns a line feed in its
  place.
\<close>

theorem inner_carriage_return_is_translated:
  "strip [CHR ''a'', CHR 0x0D, CHR ''b''] = [CHR ''a'', CHR 0x0D, CHR ''b''] \<and>
   load_token [''ws''] \<lparr>fs = [[''ws'', ''.secret''] \<mapsto> File [CHR ''a'', CHR 0x0D, CHR ''b'']], trace = []\<rparr>
     = (Inr [CHR ''a'', CHR 0x0A, CHR ''b''],
        \<lparr>fs = [[''ws'', ''.secret''] \<mapsto> File [CHR ''a'', CHR 0x0D, CHR ''b'']], trace = []\<rparr>)"
  by (simp add: load_token_eq strip_def isspace_def)

text \<open>
  Claim C9. The bootstrap writes the token to \<^verbatim>\<open>.secret\<close> in the directory of the script,
  and to no other path; the probe script reads \<^verbatim>\<open>.secret\<close> in its working directory. Read
  from the script directory the token comes back, stripped and with its newlines
  translated, so unchanged when it has no whitespace; read from any other working
  directory the loader gives what it gave before the bootstrap ran, whatever the token.
\<close>

theorem secret_written_to_script_dir_read_from_cwd:
  "start_jupyterlab sd tok w = (Inr (), w1) \<longrightarrow>
     fs w1 = (fs w)(sd @ [''.secret''] \<mapsto> File tok) \<and>
     load_token sd w1 = (Inr (strip (universal_newlines tok)), w1) \<and>
     (list_all (\<lambda>c. \<not> isspace c) tok \<longrightarrow> load_token sd w1 = (Inr tok, w1)) \<and>
     (cwd \<noteq> sd \<longrightarrow> fst (load_token cwd w1) = fst (load_token cwd w))"
proof (intro impI)
  assume "start_jupyterlab sd tok w = (Inr (), w1)"
  then have w1: "w1 = w\<lparr>fs := (fs w)(sd @ [''.secret''] \<mapsto> File tok),
                        trace := trace w @ [Wrote (sd @ [''.secret'']) tok]\<rparr>"
    by (simp add: start_jupyterlab_eq split: option.splits)
  then have a: "fs w1 = (fs w)(sd @ [''.secret''] \<mapsto> File tok)"
    by simp
  then have b: "load_token sd w1 = (Inr (strip (universal_newlines tok)), w1)"
    by (simp add: load_token_eq)
  then have b': "list_all (\<lambda>c. \<not> isspace c) tok \<longrightarrow> load_token sd w1 = (Inr tok, w1)"
    by (simp add: strip_no_space universal_newlines_no_cr no_space_no_cr)
  have c: "cwd \<noteq> sd \<longrightarrow> fst (load_token cwd w1) = fst (load_token cwd w)"
  proof
    assume "cwd \<noteq> sd"
    with a have "fs w1 (cwd @ [''.secret'']) = fs w (cwd @ [''.secret''])"
      by simp
    then show "fst (load_token cwd w1) = fst (load_token cwd w)"
      by (simp add: load_token_eq split: option.splits node.splits)
  qed
  from a b b' c
  show "fs w1 = (fs w)(sd @ [''.secret''] \<mapsto> File tok) \<and>
     load_token sd w1 = (Inr (strip (universal_newlines tok)), w1) \<and>
     (list_all (\<lambda>c. \<not> isspace c) tok \<longrightarrow> load_token sd w1 = (Inr tok, w1)) \<and>
     (cwd \<noteq> sd \<longrightarrow> fst (load_token cwd w1) = fst (load_token cwd w))"
    by blast
qed

theorem secret_written_to_script_dir_read_from_cwd_witness:
  "load_token [''ws''] (snd (start_jupyterlab [''ws''] ''3f9a'' \<lparr>fs = [[''ws''] \<mapsto> Dir], trace = []\<rparr>))
     = (Inr ''3f9a'', snd (start_jupyterlab [''ws''] ''3f9a'' \<lparr>fs = [[''ws''] \<mapsto> Dir], trace = []\<rparr>)) \<and>
   fst (load_token [''home''] (snd (start_jupyterlab [''ws''] ''3f9a'' \<lparr>fs = [[''ws''] \<mapsto> Dir], trace = []\<rparr>)))
     = Inl (FileNotFoundError [''home'', ''.secret''])"
proof -
  let ?v = "\<lparr>fs = [[''ws''] \<mapsto> Dir], trace = []\<rparr>"
  have b: "start_jupyterlab [''ws''] ''3f9a'' ?v = (Inr (), snd (start_jupyterlab [''ws''] ''3f9a'' ?v))"
    by (simp add: start_jupyterlab_eq open_w_def)
  have nosp: "list_all (\<lambda>c. \<not> isspace c) ''3f9a''"
    by (simp add: isspace_def)
  have before: "fst (load_token [''home''] ?v) = Inl (FileNotFoundError [''home'', ''.secret''])"
    by (simp add: load_token_eq)
  from secret_written_to_script_dir_read_from_cwd
    [where sd = "[''ws'']" and tok = "''3f9a''" and w = ?v and cwd = "[''home'']"
      and ?w1.0 = "snd (start_jupyterlab [''ws''] ''3f9a'' ?v)"] b nosp
  have "load_token [''ws''] (snd (start_jupyterlab [''ws''] ''3f9a'' ?v))
      = (Inr ''3f9a'', snd (start_jupyterlab [''ws''] ''3f9a'' ?v)) \<and>
    fst (load_token [''home''] (snd (start_jupyterlab [''ws''] ''3f9a'' ?v))) = fst (load_token [''home''] ?v)"
    by blast
  with before show ?thesis
    by simp
qed

section \<open>The persistence step\<close>

lemma sample_loads:
  "loads sample_lib ''{}'' = Json EmptyObject"
  "loads sample_lib ''x'' = JSONDecodeError ''Expecting value: line 1 column 1 (char 0)''"
  "loads sample_lib ''not json'' = JSONDecodeError ''Expecting value: line 1 column 1 (char 0)''"
  "loads sample_lib long_number_body =
     Raised (ValueError (''Exceeds the limit (4300 digits) for integer string conversion: '' @
       ''value has 4301 digits; use sys.set_int_max_str_digits() to increase the limit''))"
  by (simp_all add: sample_lib_def long_number_body_def)

lemma sample_dumps: "dumps sample_lib n EmptyObject = ''{}''"
  by (simp add: sample_lib_def)





section \<open>Runs that complete\<close>




lemma try_save_fs:
  "fs (snd (try_save lib wd resp l w)) = fs w \<or>
   (open_w (fs w) (sample_path wd l) = None \<and>
    (\<exists>c. fs (snd (try_save lib wd resp l w)) = (fs w)(sample_path wd l \<mapsto> File c)))"
  by (auto simp: try_save_eq write_file_eq split: parsed.splits option.splits)

lemma try_save_raises:
  "fst (try_save lib wd resp l w) =
     (if status_code resp = 200 then
        (case loads lib (resp_text resp) of
           Json d \<Rightarrow> (case open_w (fs w) (wd @ [''samples'', l @ ''.json'']) of None \<Rightarrow> Inr () | Some e \<Rightarrow> Inl e)
         | JSONDecodeError e \<Rightarrow> Inr ()
         | Raised x \<Rightarrow> Inl x)
      else Inr ())"
  by (auto simp: try_save_eq write_file_eq sample_path_def split: parsed.splits option.splits)


lemma try_save_fst_cong:
  "open_w (fs v) (sample_path wd l) = open_w (fs w) (sample_path wd l) \<Longrightarrow>
     fst (try_save lib wd resp l v) = fst (try_save lib wd resp l w)"
  by (simp add: try_save_raises sample_path_def split: parsed.splits)

lemma try_save_fst_trace [simp]:
  "fst (try_save lib wd resp l (w\<lparr>trace := t\<rparr>)) = fst (try_save lib wd resp l w)"
  by (rule try_save_fst_cong) simp



lemma run_probes_step:
  "run_probes lib wd srv (p # ps) w =
     (case fst (probe lib wd srv (fst p) (snd p) w) of
        Inl e \<Rightarrow> (Inl e, snd (probe lib wd srv (fst p) (snd p) w))
      | Inr u \<Rightarrow> run_probes lib wd srv ps (snd (probe lib wd srv (fst p) (snd p) w)))"
  by (cases "probe lib wd srv (fst p) (snd p) w") (simp add: then_do_def split: sum.splits)


lemma test_script_parts:
  assumes "fs w (cwd @ [''.secret'']) = Some (File c)"
  shows "test_script lib wd cwd srv w =
     (case srv (client_request (''http://localhost:8888/?token='' @ strip (universal_newlines c))) of
        Inl e \<Rightarrow> (Inl e, w\<lparr>trace := trace w @ [Sent (client_request (''http://localhost:8888/?token='' @ strip (universal_newlines c)))]\<rparr>)
      | Inr resp \<Rightarrow>
         (case fst (run_probes lib wd srv probes
                      (w\<lparr>trace := trace w @ [Sent (client_request (''http://localhost:8888/?token='' @ strip (universal_newlines c)))]\<rparr>)) of
            Inl e \<Rightarrow> (Inl e, snd (run_probes lib wd srv probes
                      (w\<lparr>trace := trace w @ [Sent (client_request (''http://localhost:8888/?token='' @ strip (universal_newlines c)))]\<rparr>)))
          | Inr u \<Rightarrow> range_probe srv (strip (universal_newlines c)) (snd (run_probes lib wd srv probes
                      (w\<lparr>trace := trace w @ [Sent (client_request (''http://localhost:8888/?token='' @ strip (universal_newlines c)))]\<rparr>)))))"
  using assms
  by (simp add: test_script_run load_token_eq client_get_eq then_do_def split: sum.splits prod.splits)

lemma test_script_fst:
  assumes "fs w (cwd @ [''.secret'']) = Some (File c)"
  shows "fst (test_script lib wd cwd srv w) =
     (case srv (client_request (''http://localhost:8888/?token='' @ strip (universal_newlines c))) of
        Inl e \<Rightarrow> Inl e
      | Inr resp \<Rightarrow>
         (case fst (run_probes lib wd srv probes
                      (w\<lparr>trace := trace w @ [Sent (client_request (''http://localhost:8888/?token='' @ strip (universal_newlines c)))]\<rparr>)) of
            Inl e \<Rightarrow> Inl e
          | Inr u \<Rightarrow> (case srv (range_request (strip (universal_newlines c))) of
                        Inl e \<Rightarrow> Inl e | Inr resp' \<Rightarrow> Inr (resp_text resp'))))"
  by (simp add: test_script_parts [OF assms] range_probe_eq split: sum.splits)





section \<open>Files and the trace\<close>

lemma after_writes_append: "after_writes (xs @ ys) f = after_writes ys (after_writes xs f)"
  by (simp add: after_writes_def)

lemma after_writes_Cons: "after_writes (pc # ws) f = after_writes ws (f(fst pc \<mapsto> File (snd pc)))"
  by (simp add: after_writes_def)

lemma after_writes_Nil [simp]: "after_writes [] f = f"
  by (simp add: after_writes_def)

lemma after_writes_other: "q \<notin> fst ` set ws \<Longrightarrow> after_writes ws f q = f q"
  by (induction ws arbitrary: f) (simp_all add: after_writes_Cons)

lemma after_writes_distinct:
  "distinct (map fst ws) \<Longrightarrow> (q, c) \<in> set ws \<Longrightarrow> after_writes ws f q = Some (File c)"
proof (induction ws arbitrary: f)
  case Nil
  then show ?case by simp
next
  case (Cons pc ws)
  show ?case
  proof (cases "pc = (q, c)")
    case True
    with Cons.prems(1) have "q \<notin> fst ` set ws"
      by simp
    then have "after_writes ws (f(q \<mapsto> File c)) q = (f(q \<mapsto> File c)) q"
      by (rule after_writes_other)
    with True show ?thesis
      by (simp add: after_writes_Cons)
  next
    case False
    with Cons.prems have "distinct (map fst ws)" "(q, c) \<in> set ws"
      by simp_all
    then have "after_writes ws (f(fst pc \<mapsto> File (snd pc))) q = Some (File c)"
      by (rule Cons.IH)
    then show ?thesis
      by (simp add: after_writes_Cons)
  qed
qed

lemma continues_refl [simp]: "continues w w"
  by (simp add: continues_def)

lemma continues_trans: "continues w w1 \<Longrightarrow> continues w1 w2 \<Longrightarrow> continues w w2"
  by (auto simp: continues_def after_writes_append)

lemma continues_event:
  "continues w (w\<lparr>trace := trace w @ [Sent rq]\<rparr>)"
  "continues w (w\<lparr>trace := trace w @ [Printed s]\<rparr>)"
  "continues w (w\<lparr>fs := (fs w)(p \<mapsto> File c), trace := trace w @ [Wrote p c]\<rparr>)"
  by (simp_all add: continues_def after_writes_Cons)

lemma try_save_continues: "continues w (snd (try_save lib wd resp l w))"
  by (simp add: try_save_eq write_file_eq continues_event split: parsed.splits option.splits)

lemma probe_continues: "continues w (snd (probe lib wd srv u l w))"
proof (cases "srv (client_request u)")
  case (Inl e)
  then show ?thesis
    by (simp add: probe_eq continues_event)
next
  case (Inr resp)
  let ?w1 = "w\<lparr>trace := trace w @ [Sent (client_request u)]\<rparr>"
  have "continues w ?w1"
    by (rule continues_event)
  moreover have "continues ?w1 (snd (try_save lib wd resp l ?w1))"
    by (rule try_save_continues)
  ultimately have "continues w (snd (try_save lib wd resp l ?w1))"
    by (rule continues_trans)
  with Inr show ?thesis
    by (simp add: probe_eq)
qed

lemma run_probes_continues: "continues w (snd (run_probes lib wd srv ps w))"
proof (induction ps arbitrary: w)
  case Nil
  show ?case by simp
next
  case (Cons p ps)
  let ?w1 = "snd (probe lib wd srv (fst p) (snd p) w)"
  have 1: "continues w ?w1"
    by (rule probe_continues)
  have "continues ?w1 (snd (run_probes lib wd srv ps ?w1))"
    by (rule Cons.IH)
  with 1 have "continues w (snd (run_probes lib wd srv ps ?w1))"
    by (rule continues_trans)
  with 1 show ?case
    by (simp add: run_probes_step del: run_probes.simps split: sum.splits)
qed

lemma test_script_continues: "continues w (snd (test_script lib wd cwd srv w))"
proof (cases "\<exists>c. fs w (cwd @ [''.secret'']) = Some (File c)")
  case False
  then have "\<forall>c. fs w (cwd @ [''.secret'']) \<noteq> Some (File c)"
    by simp
  then obtain e where "test_script lib wd cwd srv w = (Inl e, w)"
    using test_script_no_token by blast
  then show ?thesis
    by simp
next
  case True
  then obtain c where c: "fs w (cwd @ [''.secret'']) = Some (File c)"
    by blast
  let ?t = "strip (universal_newlines c)"
  let ?w0 = "w\<lparr>trace := trace w @ [Sent (client_request (''http://localhost:8888/?token='' @ ?t))]\<rparr>"
  let ?w2 = "snd (run_probes lib wd srv probes ?w0)"
  have 0: "continues w ?w0"
    by (rule continues_event)
  have "continues ?w0 ?w2"
    by (rule run_probes_continues)
  with 0 have 2: "continues w ?w2"
    by (rule continues_trans)
  have "continues ?w2 (?w2\<lparr>trace := trace ?w2 @ [Sent (range_request ?t)]\<rparr>)"
    by (rule continues_event)
  with 2 have 3: "continues w (?w2\<lparr>trace := trace ?w2 @ [Sent (range_request ?t)]\<rparr>)"
    by (rule continues_trans)
  note parts = test_script_parts [OF c, of lib wd srv]
  show ?thesis
  proof (cases "srv (client_request (''http://localhost:8888/?token='' @ ?t))")
    case (Inl e)
    with parts have "snd (test_script lib wd cwd srv w) = ?w0"
      by simp
    with 0 show ?thesis
      by simp
  next
    case (Inr resp)
    show ?thesis
    proof (cases "fst (run_probes lib wd srv probes ?w0)")
      case (Inl e)
      with parts \<open>srv _ = Inr resp\<close> have "snd (test_script lib wd cwd srv w) = ?w2"
        by simp
      with 2 show ?thesis
        by simp
    next
      case (Inr u)
      with parts \<open>srv _ = Inr resp\<close>
      have "snd (test_script lib wd cwd srv w) = ?w2\<lparr>trace := trace ?w2 @ [Sent (range_request ?t)]\<rparr>"
        by (simp add: range_probe_eq)
      with 3 show ?thesis
        by simp
    qed
  qed
qed

lemma test_script_fs_from_trace:
  assumes "trace w = []"
  shows "fs (snd (test_script lib wd cwd srv w)) =
    after_writes (wrote_of (trace (snd (test_script lib wd cwd srv w)))) (fs w)"
  using test_script_continues [of w lib wd cwd srv] assms
  by (auto simp: continues_def)

lemma wrote_of_probe_events:
  "wrote_of (probe_events lib wd srv p) =
     (case srv (client_request (fst p)) of
        Inl e \<Rightarrow> []
      | Inr resp \<Rightarrow>
          if status_code resp = 200 then
            (case loads lib (resp_text resp) of
               Json d \<Rightarrow> [(sample_path wd (snd p), dumps lib 2 d)]
             | JSONDecodeError e \<Rightarrow> []
             | Raised x \<Rightarrow> [])
          else [])"
  by (simp add: probe_events_def save_events_def split: sum.splits parsed.splits)

lemma wrote_of_probe_events_cases:
  "wrote_of (probe_events lib wd srv p) = [] \<or>
   (\<exists>c. wrote_of (probe_events lib wd srv p) = [(sample_path wd (snd p), c)])"
proof (cases "srv (client_request (fst p))")
  case (Inl e)
  then show ?thesis
    by (simp add: wrote_of_probe_events)
next
  case (Inr resp)
  then show ?thesis
    by (cases "loads lib (resp_text resp)") (simp_all add: wrote_of_probe_events)
qed

lemma wrote_of_probe_events_paths:
  "fst ` set (wrote_of (probe_events lib wd srv p)) \<subseteq> {sample_path wd (snd p)}"
  using wrote_of_probe_events_cases [of lib wd srv p] by auto

lemma sample_path_inj: "sample_path wd l = sample_path wd l' \<longleftrightarrow> l = l'"
  by (simp add: sample_path_def)

lemma wrote_of_concat_paths:
  "fst ` set (wrote_of (concat (map (probe_events lib wd srv) ps))) \<subseteq> (\<lambda>p. sample_path wd (snd p)) ` set ps"
proof (induction ps)
  case Nil
  show ?case by simp
next
  case (Cons p ps)
  with wrote_of_probe_events_paths [of lib wd srv p] show ?case
    by auto
qed

lemma wrote_of_concat_distinct:
  "distinct (map snd ps) \<Longrightarrow> distinct (map fst (wrote_of (concat (map (probe_events lib wd srv) ps))))"
proof (induction ps)
  case Nil
  show ?case by simp
next
  case (Cons p ps)
  let ?A = "wrote_of (probe_events lib wd srv p)"
  let ?B = "wrote_of (concat (map (probe_events lib wd srv) ps))"
  from Cons.prems have nin: "snd p \<notin> snd ` set ps" and d: "distinct (map snd ps)"
    by simp_all
  have 1: "distinct (map fst ?A)"
    using wrote_of_probe_events_cases [of lib wd srv p] by auto
  from d have 2: "distinct (map fst ?B)"
    by (rule Cons.IH)
  have fresh: "sample_path wd (snd p) \<notin> (\<lambda>p. sample_path wd (snd p)) ` set ps"
  proof
    assume "sample_path wd (snd p) \<in> (\<lambda>p. sample_path wd (snd p)) ` set ps"
    then obtain p' where p': "p' \<in> set ps" and "sample_path wd (snd p) = sample_path wd (snd p')"
      by blast
    then have "snd p = snd p'"
      by (simp add: sample_path_inj)
    with p' have "snd p \<in> snd ` set ps"
      by simp
    with nin show False
      by contradiction
  qed
  have 3: "set (map fst ?A) \<inter> set (map fst ?B) = {}"
  proof (rule ccontr)
    assume "set (map fst ?A) \<inter> set (map fst ?B) \<noteq> {}"
    then obtain q where qa: "q \<in> fst ` set ?A" and qb: "q \<in> fst ` set ?B"
      by auto
    from qa wrote_of_probe_events_paths [of lib wd srv p] have "q = sample_path wd (snd p)"
      by blast
    moreover from qb wrote_of_concat_paths [of lib wd srv ps]
    have "q \<in> (\<lambda>p. sample_path wd (snd p)) ` set ps"
      by blast
    ultimately show False
      using fresh by simp
  qed
  have "map fst (wrote_of (concat (map (probe_events lib wd srv) (p # ps)))) = map fst ?A @ map fst ?B"
    by simp
  moreover from 1 2 3 have "distinct (map fst ?A @ map fst ?B)"
    by (simp only: distinct_append simp_thms)
  ultimately show ?case
    by (simp only:)
qed

lemma wrote_of_concat_member:
  assumes "p \<in> set ps" and "srv (client_request (fst p)) = Inr resp"
    and "status_code resp = 200" and "loads lib (resp_text resp) = Json d"
  shows "(sample_path wd (snd p), dumps lib 2 d) \<in> set (wrote_of (concat (map (probe_events lib wd srv) ps)))"
  using assms(1)
proof (induction ps)
  case Nil
  then show ?case by simp
next
  case (Cons a ps)
  show ?case
  proof (cases "p = a")
    case True
    with assms(2-4) show ?thesis
      by (simp add: wrote_of_probe_events)
  next
    case False
    with Cons show ?thesis
      by simp
  qed
qed

lemma distinct_labels: "distinct (map snd probes)"
  by (simp add: probes_def)

lemma wrote_of_script_trace:
  "wrote_of (script_trace lib wd srv token) = wrote_of (concat (map (probe_events lib wd srv) probes))"
  by (simp add: script_trace_def)

lemma completed_run_files:
  assumes run: "test_script lib wd cwd srv w = (Inr t, w')"
    and tok: "fs w (cwd @ [''.secret'']) = Some (File c)"
    and fresh: "trace w = []"
    and p: "p \<in> set probes" and a: "srv (client_request (fst p)) = Inr resp"
    and s: "status_code resp = 200" and l: "loads lib (resp_text resp) = Json d"
  shows "fs w' (sample_path wd (snd p)) = Some (File (dumps lib 2 d))"
proof -
  from test_script_sent(2) [OF run tok fresh]
  have tr: "trace w' = script_trace lib wd srv (strip (universal_newlines c))"
    by simp
  from test_script_fs_from_trace [OF fresh, of lib wd cwd srv] run
  have "fs w' = after_writes (wrote_of (trace w')) (fs w)"
    by simp
  with tr have f: "fs w' = after_writes (wrote_of (concat (map (probe_events lib wd srv) probes))) (fs w)"
    by (simp add: wrote_of_script_trace)
  from distinct_labels have "distinct (map fst (wrote_of (concat (map (probe_events lib wd srv) probes))))"
    by (rule wrote_of_concat_distinct)
  moreover from p a s l
  have "(sample_path wd (snd p), dumps lib 2 d) \<in> set (wrote_of (concat (map (probe_events lib wd srv) probes)))"
    by (rule wrote_of_concat_member)
  ultimately show ?thesis
    unfolding f by (rule after_writes_distinct)
qed

lemma probe_fs_frame:
  assumes "q \<noteq> sample_path wd l"
  shows "fs (snd (probe lib wd srv u l w)) q = fs w q"
proof (cases "srv (client_request u)")
  case (Inl e)
  then show ?thesis
    by (simp add: probe_eq)
next
  case (Inr resp)
  let ?w1 = "w\<lparr>trace := trace w @ [Sent (client_request u)]\<rparr>"
  from try_save_fs [of lib wd resp l ?w1] assms
  have "fs (snd (try_save lib wd resp l ?w1)) q = fs w q"
    by auto
  with Inr show ?thesis
    by (simp add: probe_eq)
qed

lemma run_probes_fs_frame:
  "q \<notin> (\<lambda>p. sample_path wd (snd p)) ` set ps \<Longrightarrow>
     fs (snd (run_probes lib wd srv ps w)) q = fs w q"
proof (induction ps arbitrary: w)
  case Nil
  show ?case by simp
next
  case (Cons p ps)
  let ?w1 = "snd (probe lib wd srv (fst p) (snd p) w)"
  from Cons.prems have q: "q \<noteq> sample_path wd (snd p)"
    and rest: "q \<notin> (\<lambda>p. sample_path wd (snd p)) ` set ps"
    by auto
  from q have 1: "fs ?w1 q = fs w q"
    by (rule probe_fs_frame)
  from rest have 2: "fs (snd (run_probes lib wd srv ps ?w1)) q = fs ?w1 q"
    by (rule Cons.IH)
  from 1 2 show ?case
    by (simp add: run_probes_step del: run_probes.simps split: sum.splits)
qed

lemma test_script_fs:
  assumes "fs w (cwd @ [''.secret'']) = Some (File c)"
  shows "fs (snd (test_script lib wd cwd srv w)) =
     (case srv (client_request (''http://localhost:8888/?token='' @ strip (universal_newlines c))) of
        Inl e \<Rightarrow> fs w
      | Inr resp \<Rightarrow> fs (snd (run_probes lib wd srv probes
                      (w\<lparr>trace := trace w @ [Sent (client_request (''http://localhost:8888/?token='' @ strip (universal_newlines c)))]\<rparr>))))"
  by (simp add: test_script_parts [OF assms] range_probe_eq split: sum.splits)

lemma test_script_fs_frame:
  assumes "q \<notin> (\<lambda>p. sample_path wd (snd p)) ` set probes"
  shows "fs (snd (test_script lib wd cwd srv w)) q = fs w q"
proof (cases "\<exists>c. fs w (cwd @ [''.secret'']) = Some (File c)")
  case False
  then have "\<forall>c. fs w (cwd @ [''.secret'']) \<noteq> Some (File c)"
    by simp
  then obtain e where "test_script lib wd cwd srv w = (Inl e, w)"
    using test_script_no_token by blast
  then show ?thesis
    by simp
next
  case True
  then obtain c where c: "fs w (cwd @ [''.secret'']) = Some (File c)"
    by blast
  let ?w0 = "w\<lparr>trace := trace w @ [Sent (client_request (''http://localhost:8888/?token='' @ strip (universal_newlines c)))]\<rparr>"
  from assms have "fs (snd (run_probes lib wd srv probes ?w0)) q = fs ?w0 q"
    by (rule run_probes_fs_frame)
  then show ?thesis
    by (simp add: test_script_fs [OF c] split: sum.splits)
qed

section \<open>The order of the requests\<close>

lemma probes_unfolded:
  "probes = ((lab_url @ ''/api/'', ''[GET]__root'') #
           (lab_url @ ''/lab/api/workspaces'', ''[GET]lab__workspaces'') #
           map (\<lambda>i. (lab_url @ ''/api/'' @ i, ''[GET]'' @ i))
             [''sessions'', ''kernels'', ''contents'', ''terminals'', ''kernelspecs'', ''status'', ''me''])"
  by (simp add: probes_def lab_url_def)

lemma script_requests_get:
  "rq \<in> set (sent_of (script_trace lib wd srv token)) \<Longrightarrow> meth rq = ''GET''"
  by (auto simp: sent_of_script_trace client_request_def range_request_def)

text \<open>
  Claim C4. A run that starts with an empty trace and a readable credential file sends
  GET requests only, and the URLs it has sent are an initial part of this list: the base
  URL with the token, the root info endpoint, the workspaces endpoint, \<^verbatim>\<open>{base}/api/{name}\<close>
  for the seven names in their order, the static file. The file system after the run is
  the one before it with the writes of the trace applied, and no path but the nine files
  \<^verbatim>\<open>samples/<file name>.json\<close> has changed. A run that completes has sent all the URLs, its
  trace is each persisted probe's request followed by what the persistence step did with
  the answer, and for every probe answered with status 200 and a JSON body the file
  \<^verbatim>\<open>samples/[GET]<name>.json\<close> holds that value printed with indentation 2.
\<close>

theorem probes_sent_in_fixed_order:
  "test_script lib wd cwd srv w = (r, w') \<and> fs w (cwd @ [''.secret'']) = Some (File c) \<and> trace w = [] \<longrightarrow>
     list_all (\<lambda>rq. meth rq = ''GET'') (sent_of (trace w')) \<and>
     prefix (map url (sent_of (trace w'))) ([lab_url @ ''?token='' @ strip (universal_newlines c), lab_url @ ''/api/'', lab_url @ ''/lab/api/workspaces''] @
        map (\<lambda>i. lab_url @ ''/api/'' @ i)
          [''sessions'', ''kernels'', ''contents'', ''terminals'', ''kernelspecs'', ''status'', ''me''] @
        [lab_url @ ''/files/hello.txt?token='' @ strip (universal_newlines c)]) \<and>
     fs w' = after_writes (wrote_of (trace w')) (fs w) \<and>
     (\<forall>q. (\<forall>p\<in>set ((lab_url @ ''/api/'', ''[GET]__root'') #
           (lab_url @ ''/lab/api/workspaces'', ''[GET]lab__workspaces'') #
           map (\<lambda>i. (lab_url @ ''/api/'' @ i, ''[GET]'' @ i))
             [''sessions'', ''kernels'', ''contents'', ''terminals'', ''kernelspecs'', ''status'', ''me'']). q \<noteq> wd @ [''samples'', snd p @ ''.json'']) \<longrightarrow> fs w' q = fs w q) \<and>
     ((\<exists>t. r = Inr t) \<longrightarrow>
        map url (sent_of (trace w')) = ([lab_url @ ''?token='' @ strip (universal_newlines c), lab_url @ ''/api/'', lab_url @ ''/lab/api/workspaces''] @
        map (\<lambda>i. lab_url @ ''/api/'' @ i)
          [''sessions'', ''kernels'', ''contents'', ''terminals'', ''kernelspecs'', ''status'', ''me''] @
        [lab_url @ ''/files/hello.txt?token='' @ strip (universal_newlines c)]) \<and>
        trace w' =
          Sent (client_request (lab_url @ ''?token='' @ strip (universal_newlines c))) #
          concat (map (probe_events lib wd srv) ((lab_url @ ''/api/'', ''[GET]__root'') #
           (lab_url @ ''/lab/api/workspaces'', ''[GET]lab__workspaces'') #
           map (\<lambda>i. (lab_url @ ''/api/'' @ i, ''[GET]'' @ i))
             [''sessions'', ''kernels'', ''contents'', ''terminals'', ''kernelspecs'', ''status'', ''me''])) @
          [Sent (range_request (strip (universal_newlines c)))] \<and>
        (\<forall>p\<in>set ((lab_url @ ''/api/'', ''[GET]__root'') #
           (lab_url @ ''/lab/api/workspaces'', ''[GET]lab__workspaces'') #
           map (\<lambda>i. (lab_url @ ''/api/'' @ i, ''[GET]'' @ i))
             [''sessions'', ''kernels'', ''contents'', ''terminals'', ''kernelspecs'', ''status'', ''me'']). \<forall>resp d.
           srv (client_request (fst p)) = Inr resp \<and> status_code resp = 200 \<and>
           loads lib (resp_text resp) = Json d \<longrightarrow>
           fs w' (wd @ [''samples'', snd p @ ''.json'']) = Some (File (dumps lib 2 d))))"
proof (intro impI)
  assume a: "test_script lib wd cwd srv w = (r, w') \<and> fs w (cwd @ [''.secret'']) = Some (File c) \<and> trace w = []"
  then have run: "test_script lib wd cwd srv w = (r, w')"
    and tok: "fs w (cwd @ [''.secret'']) = Some (File c)"
    and fresh: "trace w = []"
    by simp_all
  let ?t = "strip (universal_newlines c)"
  let ?urls = "([lab_url @ ''?token='' @ strip (universal_newlines c), lab_url @ ''/api/'', lab_url @ ''/lab/api/workspaces''] @
        map (\<lambda>i. lab_url @ ''/api/'' @ i)
          [''sessions'', ''kernels'', ''contents'', ''terminals'', ''kernelspecs'', ''status'', ''me''] @
        [lab_url @ ''/files/hello.txt?token='' @ strip (universal_newlines c)])"
  have urls: "map url (sent_of (script_trace lib wd srv ?t)) = ?urls"
    by (simp add: sent_of_script_trace probes_def client_request_def range_request_def lab_url_def)
  from test_script_sent(1) [OF run tok fresh]
  have pre: "prefix (sent_of (trace w')) (sent_of (script_trace lib wd srv ?t))" .
  then have "prefix (map url (sent_of (trace w'))) (map url (sent_of (script_trace lib wd srv ?t)))"
    by (rule map_mono_prefix)
  with urls have 2: "prefix (map url (sent_of (trace w'))) ?urls"
    by simp
  from pre have "set (sent_of (trace w')) \<subseteq> set (sent_of (script_trace lib wd srv ?t))"
    by (rule set_mono_prefix)
  then have 1: "list_all (\<lambda>rq. meth rq = ''GET'') (sent_of (trace w'))"
    by (auto simp: list_all_iff dest: script_requests_get)
  from test_script_fs_from_trace [OF fresh, of lib wd cwd srv] run
  have 3: "fs w' = after_writes (wrote_of (trace w')) (fs w)"
    by simp
  have 4: "(\<forall>q. (\<forall>p\<in>set ((lab_url @ ''/api/'', ''[GET]__root'') #
           (lab_url @ ''/lab/api/workspaces'', ''[GET]lab__workspaces'') #
           map (\<lambda>i. (lab_url @ ''/api/'' @ i, ''[GET]'' @ i))
             [''sessions'', ''kernels'', ''contents'', ''terminals'', ''kernelspecs'', ''status'', ''me'']). q \<noteq> wd @ [''samples'', snd p @ ''.json'']) \<longrightarrow> fs w' q = fs w q)"
  proof (intro allI impI)
    fix q
    assume "\<forall>p\<in>set ((lab_url @ ''/api/'', ''[GET]__root'') #
           (lab_url @ ''/lab/api/workspaces'', ''[GET]lab__workspaces'') #
           map (\<lambda>i. (lab_url @ ''/api/'' @ i, ''[GET]'' @ i))
             [''sessions'', ''kernels'', ''contents'', ''terminals'', ''kernelspecs'', ''status'', ''me'']). q \<noteq> wd @ [''samples'', snd p @ ''.json'']"
    then have "q \<notin> (\<lambda>p. sample_path wd (snd p)) ` set probes"
      unfolding probes_unfolded by (auto simp: sample_path_def)
    then have "fs (snd (test_script lib wd cwd srv w)) q = fs w q"
      by (rule test_script_fs_frame)
    with run show "fs w' q = fs w q"
      by simp
  qed
  have 5: "((\<exists>t. r = Inr t) \<longrightarrow>
        map url (sent_of (trace w')) = ([lab_url @ ''?token='' @ strip (universal_newlines c), lab_url @ ''/api/'', lab_url @ ''/lab/api/workspaces''] @
        map (\<lambda>i. lab_url @ ''/api/'' @ i)
          [''sessions'', ''kernels'', ''contents'', ''terminals'', ''kernelspecs'', ''status'', ''me''] @
        [lab_url @ ''/files/hello.txt?token='' @ strip (universal_newlines c)]) \<and>
        trace w' =
          Sent (client_request (lab_url @ ''?token='' @ strip (universal_newlines c))) #
          concat (map (probe_events lib wd srv) ((lab_url @ ''/api/'', ''[GET]__root'') #
           (lab_url @ ''/lab/api/workspaces'', ''[GET]lab__workspaces'') #
           map (\<lambda>i. (lab_url @ ''/api/'' @ i, ''[GET]'' @ i))
             [''sessions'', ''kernels'', ''contents'', ''terminals'', ''kernelspecs'', ''status'', ''me''])) @
          [Sent (range_request (strip (universal_newlines c)))] \<and>
        (\<forall>p\<in>set ((lab_url @ ''/api/'', ''[GET]__root'') #
           (lab_url @ ''/lab/api/workspaces'', ''[GET]lab__workspaces'') #
           map (\<lambda>i. (lab_url @ ''/api/'' @ i, ''[GET]'' @ i))
             [''sessions'', ''kernels'', ''contents'', ''terminals'', ''kernelspecs'', ''status'', ''me'']). \<forall>resp d.
           srv (client_request (fst p)) = Inr resp \<and> status_code resp = 200 \<and>
           loads lib (resp_text resp) = Json d \<longrightarrow>
           fs w' (wd @ [''samples'', snd p @ ''.json'']) = Some (File (dumps lib 2 d))))"
  proof (intro impI conjI)
    assume "\<exists>t. r = Inr t"
    with test_script_sent(2) [OF run tok fresh]
    have t: "trace w' = script_trace lib wd srv ?t"
      by blast
    with urls show "map url (sent_of (trace w')) = ?urls"
      by simp
    from t show "trace w' =
          Sent (client_request (lab_url @ ''?token='' @ strip (universal_newlines c))) #
          concat (map (probe_events lib wd srv) ((lab_url @ ''/api/'', ''[GET]__root'') #
           (lab_url @ ''/lab/api/workspaces'', ''[GET]lab__workspaces'') #
           map (\<lambda>i. (lab_url @ ''/api/'' @ i, ''[GET]'' @ i))
             [''sessions'', ''kernels'', ''contents'', ''terminals'', ''kernelspecs'', ''status'', ''me''])) @
          [Sent (range_request (strip (universal_newlines c)))]"
      unfolding script_trace_def probes_unfolded
      by (simp add: lab_url_def)
  next
    assume "\<exists>t. r = Inr t"
    then obtain t where "r = Inr t"
      by blast
    with run have run': "test_script lib wd cwd srv w = (Inr t, w')"
      by simp
    show "(\<forall>p\<in>set ((lab_url @ ''/api/'', ''[GET]__root'') #
           (lab_url @ ''/lab/api/workspaces'', ''[GET]lab__workspaces'') #
           map (\<lambda>i. (lab_url @ ''/api/'' @ i, ''[GET]'' @ i))
             [''sessions'', ''kernels'', ''contents'', ''terminals'', ''kernelspecs'', ''status'', ''me'']). \<forall>resp d.
           srv (client_request (fst p)) = Inr resp \<and> status_code resp = 200 \<and>
           loads lib (resp_text resp) = Json d \<longrightarrow>
           fs w' (wd @ [''samples'', snd p @ ''.json'']) = Some (File (dumps lib 2 d)))"
    proof (intro ballI allI impI)
      fix p resp d
      assume p: "p \<in> set ((lab_url @ ''/api/'', ''[GET]__root'') #
           (lab_url @ ''/lab/api/workspaces'', ''[GET]lab__workspaces'') #
           map (\<lambda>i. (lab_url @ ''/api/'' @ i, ''[GET]'' @ i))
             [''sessions'', ''kernels'', ''contents'', ''terminals'', ''kernelspecs'', ''status'', ''me''])"
        and b: "srv (client_request (fst p)) = Inr resp \<and> status_code resp = 200 \<and>
           loads lib (resp_text resp) = Json d"
      from p have "p \<in> set probes"
        unfolding probes_unfolded .
      from b have b1: "srv (client_request (fst p)) = Inr resp" and b2: "status_code resp = 200"
        and b3: "loads lib (resp_text resp) = Json d"
        by simp_all
      from run' tok fresh \<open>p \<in> set probes\<close> b1 b2 b3
      have "fs w' (sample_path wd (snd p)) = Some (File (dumps lib 2 d))"
        by (rule completed_run_files)
      then show "fs w' (wd @ [''samples'', snd p @ ''.json'']) = Some (File (dumps lib 2 d))"
        by (simp add: sample_path_def)
    qed
  qed
  from 1 2 3 4 5
  show "list_all (\<lambda>rq. meth rq = ''GET'') (sent_of (trace w')) \<and>
     prefix (map url (sent_of (trace w'))) ([lab_url @ ''?token='' @ strip (universal_newlines c), lab_url @ ''/api/'', lab_url @ ''/lab/api/workspaces''] @
        map (\<lambda>i. lab_url @ ''/api/'' @ i)
          [''sessions'', ''kernels'', ''contents'', ''terminals'', ''kernelspecs'', ''status'', ''me''] @
        [lab_url @ ''/files/hello.txt?token='' @ strip (universal_newlines c)]) \<and>
     fs w' = after_writes (wrote_of (trace w')) (fs w) \<and>
     (\<forall>q. (\<forall>p\<in>set ((lab_url @ ''/api/'', ''[GET]__root'') #
           (lab_url @ ''/lab/api/workspaces'', ''[GET]lab__workspaces'') #
           map (\<lambda>i. (lab_url @ ''/api/'' @ i, ''[GET]'' @ i))
             [''sessions'', ''kernels'', ''contents'', ''terminals'', ''kernelspecs'', ''status'', ''me'']). q \<noteq> wd @ [''samples'', snd p @ ''.json'']) \<longrightarrow> fs w' q = fs w q) \<and>
     ((\<exists>t. r = Inr t) \<longrightarrow>
        map url (sent_of (trace w')) = ([lab_url @ ''?token='' @ strip (universal_newlines c), lab_url @ ''/api/'', lab_url @ ''/lab/api/workspaces''] @
        map (\<lambda>i. lab_url @ ''/api/'' @ i)
          [''sessions'', ''kernels'', ''contents'', ''terminals'', ''kernelspecs'', ''status'', ''me''] @
        [lab_url @ ''/files/hello.txt?token='' @ strip (universal_newlines c)]) \<and>
        trace w' =
          Sent (client_request (lab_url @ ''?token='' @ strip (universal_newlines c))) #
          concat (map (probe_events lib wd srv) ((lab_url @ ''/api/'', ''[GET]__root'') #
           (lab_url @ ''/lab/api/workspaces'', ''[GET]lab__workspaces'') #
           map (\<lambda>i. (lab_url @ ''/api/'' @ i, ''[GET]'' @ i))
             [''sessions'', ''kernels'', ''contents'', ''terminals'', ''kernelspecs'', ''status'', ''me''])) @
          [Sent (range_request (strip (universal_newlines c)))] \<and>
        (\<forall>p\<in>set ((lab_url @ ''/api/'', ''[GET]__root'') #
           (lab_url @ ''/lab/api/workspaces'', ''[GET]lab__workspaces'') #
           map (\<lambda>i. (lab_url @ ''/api/'' @ i, ''[GET]'' @ i))
             [''sessions'', ''kernels'', ''contents'', ''terminals'', ''kernelspecs'', ''status'', ''me'']). \<forall>resp d.
           srv (client_request (fst p)) = Inr resp \<and> status_code resp = 200 \<and>
           loads lib (resp_text resp) = Json d \<longrightarrow>
           fs w' (wd @ [''samples'', snd p @ ''.json'']) = Some (File (dumps lib 2 d))))"
    by blast
qed

lemma mixed_run_completes:
  "fst (test_script sample_lib [''ws''] [''ws''] mixed_server ready_world) = Inr ''{}''"
  by (simp add: run_defs sample_loads sample_dumps ready_world_def mixed_server_def strip_abc str_int_404
      range_request_def)

theorem probes_sent_in_fixed_order_witness:
  "trace (snd (test_script sample_lib [''ws''] [''ws''] mixed_server ready_world)) =
     [Sent (client_request ''http://localhost:8888/?token=abc''),
      Sent (client_request ''http://localhost:8888//api/''),
      Wrote [''ws'', ''samples'', ''[GET]__root.json''] ''{}'',
      Sent (client_request ''http://localhost:8888//lab/api/workspaces''),
      Wrote [''ws'', ''samples'', ''[GET]lab__workspaces.json''] ''{}'',
      Sent (client_request ''http://localhost:8888//api/sessions''),
      Wrote [''ws'', ''samples'', ''[GET]sessions.json''] ''{}'',
      Sent (client_request ''http://localhost:8888//api/kernels''),
      Printed ''Error: 404'',
      Sent (client_request ''http://localhost:8888//api/contents''),
      Wrote [''ws'', ''samples'', ''[GET]contents.json''] ''{}'',
      Sent (client_request ''http://localhost:8888//api/terminals''),
      Wrote [''ws'', ''samples'', ''[GET]terminals.json''] ''{}'',
      Sent (client_request ''http://localhost:8888//api/kernelspecs''),
      Wrote [''ws'', ''samples'', ''[GET]kernelspecs.json''] ''{}'',
      Sent (client_request ''http://localhost:8888//api/status''),
      Printed ''JSON decode error: Expecting value: line 1 column 1 (char 0)'',
      Sent (client_request ''http://localhost:8888//api/me''),
      Wrote [''ws'', ''samples'', ''[GET]me.json''] ''{}'',
      Sent (range_request ''abc'')] \<and>
   fs (snd (test_script sample_lib [''ws''] [''ws''] mixed_server ready_world))
     [''ws'', ''samples'', ''[GET]me.json''] = Some (File ''{}'') \<and>
   fs (snd (test_script sample_lib [''ws''] [''ws''] mixed_server ready_world))
     [''ws'', ''samples'', ''[GET]kernels.json''] = None"
proof -
  let ?run = "test_script sample_lib [''ws''] [''ws''] mixed_server ready_world"
  have run: "?run = (fst ?run, snd ?run)"
    by simp
  have tok: "fs ready_world ([''ws''] @ [''.secret'']) = Some (File ''abc'')"
    by (simp add: ready_world_def)
  have fresh: "trace ready_world = []"
    by (simp add: ready_world_def)
  have fin: "\<exists>t. fst ?run = Inr t"
    by (simp add: mixed_run_completes)
  note inst = probes_sent_in_fixed_order
    [of sample_lib "[''ws'']" "[''ws'']" mixed_server ready_world "fst ?run" "snd ?run" "''abc''"]
  from inst run tok fresh fin
  have "trace (snd ?run) =
          Sent (client_request (lab_url @ ''?token='' @ strip (universal_newlines ''abc''))) #
          concat (map (probe_events sample_lib [''ws''] mixed_server)
            ((lab_url @ ''/api/'', ''[GET]__root'') #
             (lab_url @ ''/lab/api/workspaces'', ''[GET]lab__workspaces'') #
             map (\<lambda>i. (lab_url @ ''/api/'' @ i, ''[GET]'' @ i))
               [''sessions'', ''kernels'', ''contents'', ''terminals'', ''kernelspecs'', ''status'', ''me''])) @
          [Sent (range_request (strip (universal_newlines ''abc'')))]"
    by blast
  then have 1: "trace (snd ?run) =
     [Sent (client_request ''http://localhost:8888/?token=abc''),
      Sent (client_request ''http://localhost:8888//api/''),
      Wrote [''ws'', ''samples'', ''[GET]__root.json''] ''{}'',
      Sent (client_request ''http://localhost:8888//lab/api/workspaces''),
      Wrote [''ws'', ''samples'', ''[GET]lab__workspaces.json''] ''{}'',
      Sent (client_request ''http://localhost:8888//api/sessions''),
      Wrote [''ws'', ''samples'', ''[GET]sessions.json''] ''{}'',
      Sent (client_request ''http://localhost:8888//api/kernels''),
      Printed ''Error: 404'',
      Sent (client_request ''http://localhost:8888//api/contents''),
      Wrote [''ws'', ''samples'', ''[GET]contents.json''] ''{}'',
      Sent (client_request ''http://localhost:8888//api/terminals''),
      Wrote [''ws'', ''samples'', ''[GET]terminals.json''] ''{}'',
      Sent (client_request ''http://localhost:8888//api/kernelspecs''),
      Wrote [''ws'', ''samples'', ''[GET]kernelspecs.json''] ''{}'',
      Sent (client_request ''http://localhost:8888//api/status''),
      Printed ''JSON decode error: Expecting value: line 1 column 1 (char 0)'',
      Sent (client_request ''http://localhost:8888//api/me''),
      Wrote [''ws'', ''samples'', ''[GET]me.json''] ''{}'',
      Sent (range_request ''abc'')]"
    by (simp add: probe_events_def save_events_def sample_path_def mixed_server_def sample_loads
        sample_dumps client_request_def lab_url_def strip_abc str_int_404)
  have me: "(lab_url @ ''/api/'' @ ''me'', ''[GET]'' @ ''me'') \<in> set
          ((lab_url @ ''/api/'', ''[GET]__root'') #
           (lab_url @ ''/lab/api/workspaces'', ''[GET]lab__workspaces'') #
           map (\<lambda>i. (lab_url @ ''/api/'' @ i, ''[GET]'' @ i))
             [''sessions'', ''kernels'', ''contents'', ''terminals'', ''kernelspecs'', ''status'', ''me''])"
    by simp
  have ans: "mixed_server (client_request (fst (lab_url @ ''/api/'' @ ''me'', ''[GET]'' @ ''me'')))
        = Inr \<lparr>status_code = 200, resp_text = ''{}''\<rparr> \<and>
      status_code \<lparr>status_code = 200, resp_text = ''{}''\<rparr> = 200 \<and>
      loads sample_lib (resp_text \<lparr>status_code = 200, resp_text = ''{}''\<rparr>) = Json EmptyObject"
    by (simp add: mixed_server_def client_request_def lab_url_def sample_loads)
  from inst run tok fresh fin
  have "\<forall>p\<in>set ((lab_url @ ''/api/'', ''[GET]__root'') #
           (lab_url @ ''/lab/api/workspaces'', ''[GET]lab__workspaces'') #
           map (\<lambda>i. (lab_url @ ''/api/'' @ i, ''[GET]'' @ i))
             [''sessions'', ''kernels'', ''contents'', ''terminals'', ''kernelspecs'', ''status'', ''me'']).
         \<forall>resp d.
           mixed_server (client_request (fst p)) = Inr resp \<and> status_code resp = 200 \<and>
           loads sample_lib (resp_text resp) = Json d \<longrightarrow>
           fs (snd ?run) ([''ws''] @ [''samples'', snd p @ ''.json'']) = Some (File (dumps sample_lib 2 d))"
    by blast
  from this me ans
  have "fs (snd ?run) ([''ws''] @ [''samples'', snd (lab_url @ ''/api/'' @ ''me'', ''[GET]'' @ ''me'') @ ''.json''])
      = Some (File (dumps sample_lib 2 EmptyObject))"
    by blast
  then have 2: "fs (snd ?run) [''ws'', ''samples'', ''[GET]me.json''] = Some (File ''{}'')"
    by (simp add: sample_dumps)
  from inst run tok fresh
  have "fs (snd ?run) = after_writes (wrote_of (trace (snd ?run))) (fs ready_world)"
    by blast
  then have 3: "fs (snd ?run) [''ws'', ''samples'', ''[GET]kernels.json''] = None"
    unfolding 1 by (simp add: after_writes_def ready_world_def)
  from 1 2 3 show ?thesis
    by blast
qed

section \<open>Running the script again\<close>

lemma probe_raise_keeps_fs:
  assumes "fst (probe lib wd srv u l w) = Inl e"
  shows "fs (snd (probe lib wd srv u l w)) = fs w"
  using assms
  by (auto simp: probe_eq try_save_eq write_file_eq split: sum.splits parsed.splits option.splits if_splits)

lemma probe_same_fs:
  assumes "fs v = fs w"
  shows "fst (probe lib wd srv u l v) = fst (probe lib wd srv u l w)"
  using assms
  by (auto simp: probe_eq try_save_eq write_file_eq split: sum.splits parsed.splits option.splits if_splits)

lemma probe_replay:
  assumes ok: "fst (probe lib wd srv u l w) = Inr ()"
    and same: "fs v (sample_path wd l) = fs (snd (probe lib wd srv u l w)) (sample_path wd l)"
  shows "fst (probe lib wd srv u l v) = Inr () \<and> fs (snd (probe lib wd srv u l v)) = fs v"
proof (cases "srv (client_request u)")
  case (Inl e)
  with ok show ?thesis
    by (simp add: probe_eq)
next
  case (Inr resp)
  show ?thesis
  proof (cases "status_code resp = 200")
    case False
    with Inr show ?thesis
      by (simp add: probe_eq try_save_eq)
  next
    case True
    show ?thesis
    proof (cases "loads lib (resp_text resp)")
      case (JSONDecodeError e)
      with Inr True show ?thesis
        by (simp add: probe_eq try_save_eq)
    next
      case (Raised x)
      with Inr True ok show ?thesis
        by (simp add: probe_eq try_save_eq)
    next
      case (Json d)
      let ?q = "sample_path wd l"
      from ok Inr True Json have o: "open_w (fs w) ?q = None"
        by (simp add: probe_eq try_save_eq write_file_eq split: option.splits)
      with Inr True Json have "fs (snd (probe lib wd srv u l w)) ?q = Some (File (dumps lib 2 d))"
        by (simp add: probe_eq try_save_eq write_file_eq)
      with same have v: "fs v ?q = Some (File (dumps lib 2 d))"
        by simp
      then have "open_w (fs v) ?q = None"
        by (simp add: open_w_def)
      moreover from v have "(fs v)(?q \<mapsto> File (dumps lib 2 d)) = fs v"
        by (rule map_upd_triv)
      ultimately show ?thesis
        using Inr True Json by (simp add: probe_eq try_save_eq write_file_eq)
    qed
  qed
qed

lemma run_probes_replay:
  "distinct (map snd ps) \<Longrightarrow> fs v = fs (snd (run_probes lib wd srv ps w)) \<Longrightarrow>
     fst (run_probes lib wd srv ps v) = fst (run_probes lib wd srv ps w) \<and>
     fs (snd (run_probes lib wd srv ps v)) = fs v"
proof (induction ps arbitrary: w v)
  case Nil
  show ?case by simp
next
  case (Cons p ps)
  let ?pw = "probe lib wd srv (fst p) (snd p) w"
  let ?pv = "probe lib wd srv (fst p) (snd p) v"
  show ?case
  proof (cases "fst ?pw")
    case (Inl e)
    with Cons.prems(2) have "fs v = fs (snd ?pw)"
      by (simp add: run_probes_step del: run_probes.simps)
    with Inl have vw: "fs v = fs w"
      by (simp add: probe_raise_keeps_fs)
    then have "fst ?pv = fst ?pw"
      by (rule probe_same_fs)
    with Inl have f: "fst ?pv = Inl e"
      by simp
    then have "fs (snd ?pv) = fs v"
      by (rule probe_raise_keeps_fs)
    with Inl f show ?thesis
      by (simp add: run_probes_step del: run_probes.simps)
  next
    case (Inr u)
    then have ok: "fst ?pw = Inr ()"
      by simp
    from Cons.prems(1) have d: "distinct (map snd ps)"
      and nin: "snd p \<notin> snd ` set ps"
      by simp_all
    have "sample_path wd (snd p) \<notin> (\<lambda>p. sample_path wd (snd p)) ` set ps"
    proof
      assume "sample_path wd (snd p) \<in> (\<lambda>p. sample_path wd (snd p)) ` set ps"
      then obtain p' where p': "p' \<in> set ps" and "sample_path wd (snd p) = sample_path wd (snd p')"
        by blast
      then have "snd p = snd p'"
        by (simp add: sample_path_inj)
      with p' have "snd p \<in> snd ` set ps"
        by simp
      with nin show False
        by contradiction
    qed
    then have "fs (snd (run_probes lib wd srv ps (snd ?pw))) (sample_path wd (snd p))
        = fs (snd ?pw) (sample_path wd (snd p))"
      by (rule run_probes_fs_frame)
    moreover from Cons.prems(2) ok have v: "fs v = fs (snd (run_probes lib wd srv ps (snd ?pw)))"
      by (simp add: run_probes_step del: run_probes.simps)
    ultimately have "fs v (sample_path wd (snd p)) = fs (snd ?pw) (sample_path wd (snd p))"
      by simp
    with ok have r: "fst ?pv = Inr () \<and> fs (snd ?pv) = fs v"
      by (rule probe_replay)
    with v have "fs (snd ?pv) = fs (snd (run_probes lib wd srv ps (snd ?pw)))"
      by simp
    with d have "fst (run_probes lib wd srv ps (snd ?pv)) = fst (run_probes lib wd srv ps (snd ?pw)) \<and>
        fs (snd (run_probes lib wd srv ps (snd ?pv))) = fs (snd ?pv)"
      by (rule Cons.IH)
    with r ok show ?thesis
      by (simp add: run_probes_step del: run_probes.simps)
  qed
qed


lemma secret_not_sample: "cwd @ [''.secret''] \<noteq> sample_path wd l"
proof
  assume "cwd @ [''.secret''] = sample_path wd l"
  then have "last (cwd @ [''.secret'']) = last (sample_path wd l)"
    by simp
  then have "''.secret'' = l @ ''.json''"
    by (simp add: sample_path_def)
  then have "last ''.secret'' = last (l @ ''.json'')"
    by simp
  then show False
    by simp
qed

lemma test_script_keeps_secret:
  "fs (snd (test_script lib wd cwd srv w)) (cwd @ [''.secret'']) = fs w (cwd @ [''.secret''])"
proof (cases "\<exists>c. fs w (cwd @ [''.secret'']) = Some (File c)")
  case False
  then have "\<forall>c. fs w (cwd @ [''.secret'']) \<noteq> Some (File c)"
    by simp
  then obtain e where "test_script lib wd cwd srv w = (Inl e, w)"
    using test_script_no_token by blast
  then show ?thesis
    by simp
next
  case True
  then obtain c where c: "fs w (cwd @ [''.secret'']) = Some (File c)"
    by blast
  let ?w0 = "w\<lparr>trace := trace w @ [Sent (client_request (''http://localhost:8888/?token='' @ strip (universal_newlines c)))]\<rparr>"
  have "cwd @ [''.secret''] \<notin> (\<lambda>p. sample_path wd (snd p)) ` set probes"
    using secret_not_sample by blast
  then have "fs (snd (run_probes lib wd srv probes ?w0)) (cwd @ [''.secret'']) = fs ?w0 (cwd @ [''.secret''])"
    by (rule run_probes_fs_frame)
  then show ?thesis
    by (simp add: test_script_parts [OF c] range_probe_eq split: sum.splits)
qed

lemma test_script_again:
  "fst (test_script lib wd cwd srv (snd (test_script lib wd cwd srv w))) = fst (test_script lib wd cwd srv w) \<and>
   fs (snd (test_script lib wd cwd srv (snd (test_script lib wd cwd srv w)))) =
     fs (snd (test_script lib wd cwd srv w))"
proof (cases "\<exists>c. fs w (cwd @ [''.secret'']) = Some (File c)")
  case False
  then have "\<forall>c. fs w (cwd @ [''.secret'']) \<noteq> Some (File c)"
    by simp
  then obtain e where "test_script lib wd cwd srv w = (Inl e, w)"
    using test_script_no_token by blast
  then show ?thesis
    by simp
next
  case True
  then obtain c where c: "fs w (cwd @ [''.secret'']) = Some (File c)"
    by blast
  define W where "W = snd (test_script lib wd cwd srv w)"
  let ?login = "client_request (''http://localhost:8888/?token='' @ strip (universal_newlines c))"
  let ?w0 = "w\<lparr>trace := trace w @ [Sent ?login]\<rparr>"
  let ?V0 = "W\<lparr>trace := trace W @ [Sent ?login]\<rparr>"
  from c have c': "fs W (cwd @ [''.secret'']) = Some (File c)"
    by (simp add: W_def test_script_keeps_secret)
  note fst_w = test_script_fst [OF c, of lib wd srv]
  note fst_W = test_script_fst [OF c', of lib wd srv]
  note fs_w = test_script_fs [OF c, of lib wd srv]
  note fs_W = test_script_fs [OF c', of lib wd srv]
  have "fst (test_script lib wd cwd srv W) = fst (test_script lib wd cwd srv w) \<and>
        fs (snd (test_script lib wd cwd srv W)) = fs W"
  proof (cases "srv ?login")
    case (Inl e)
    with fst_w fst_W fs_W show ?thesis
      by simp
  next
    case (Inr resp)
    with fs_w have "fs W = fs (snd (run_probes lib wd srv probes ?w0))"
      by (simp add: W_def)
    then have "fs ?V0 = fs (snd (run_probes lib wd srv probes ?w0))"
      by simp
    with distinct_labels
    have "fst (run_probes lib wd srv probes ?V0) = fst (run_probes lib wd srv probes ?w0) \<and>
          fs (snd (run_probes lib wd srv probes ?V0)) = fs ?V0"
      by (rule run_probes_replay)
    then have r: "fst (run_probes lib wd srv probes ?V0) = fst (run_probes lib wd srv probes ?w0)"
      and f: "fs (snd (run_probes lib wd srv probes ?V0)) = fs W"
      by simp_all
    from fst_w fst_W Inr r have 1: "fst (test_script lib wd cwd srv W) = fst (test_script lib wd cwd srv w)"
      by simp
    from fs_W Inr f have 2: "fs (snd (test_script lib wd cwd srv W)) = fs W"
      by simp
    from 1 2 show ?thesis
      by simp
  qed
  then show ?thesis
    by (simp add: W_def)
qed


text \<open>
  Claim C8. Running the script again in the world the first run left, against the same
  server, leaves the same file system: every file has the content the first run gave it
  (a file is opened with mode \<^verbatim>\<open>w\<close>, so its content is replaced). The second run ends as
  the first did, and when the first run started with an empty trace and completed, the
  second repeats its requests, writes and printed lines one for one.
\<close>

theorem rerun_leaves_same_files:
  "fs (snd (test_script lib wd cwd srv (snd (test_script lib wd cwd srv w)))) =
     fs (snd (test_script lib wd cwd srv w)) \<and>
   fst (test_script lib wd cwd srv (snd (test_script lib wd cwd srv w))) =
     fst (test_script lib wd cwd srv w) \<and>
   (trace w = [] \<and> (\<exists>t. fst (test_script lib wd cwd srv w) = Inr t) \<longrightarrow>
      trace (snd (test_script lib wd cwd srv (snd (test_script lib wd cwd srv w)))) =
        trace (snd (test_script lib wd cwd srv w)) @ trace (snd (test_script lib wd cwd srv w)))"
proof (intro conjI impI)
  show "fs (snd (test_script lib wd cwd srv (snd (test_script lib wd cwd srv w)))) =
     fs (snd (test_script lib wd cwd srv w))"
    by (simp add: test_script_again)
next
  show "fst (test_script lib wd cwd srv (snd (test_script lib wd cwd srv w))) =
     fst (test_script lib wd cwd srv w)"
    by (simp add: test_script_again)
next
  let ?W = "snd (test_script lib wd cwd srv w)"
  assume a: "trace w = [] \<and> (\<exists>t. fst (test_script lib wd cwd srv w) = Inr t)"
  then obtain t where t: "fst (test_script lib wd cwd srv w) = Inr t"
    by blast
  have "\<exists>c. fs w (cwd @ [''.secret'']) = Some (File c)"
  proof (rule ccontr)
    assume "\<not> (\<exists>c. fs w (cwd @ [''.secret'']) = Some (File c))"
    then have "\<forall>c. fs w (cwd @ [''.secret'']) \<noteq> Some (File c)"
      by simp
    then obtain e where "test_script lib wd cwd srv w = (Inl e, w)"
      using test_script_no_token by blast
    with t show False
      by simp
  qed
  then obtain c where c: "fs w (cwd @ [''.secret'']) = Some (File c)"
    by blast
  then have c': "fs ?W (cwd @ [''.secret'']) = Some (File c)"
    by (simp add: test_script_keeps_secret)
  have r1: "test_script lib wd cwd srv w = (fst (test_script lib wd cwd srv w), ?W)"
    by simp
  have r2: "test_script lib wd cwd srv ?W =
      (fst (test_script lib wd cwd srv ?W), snd (test_script lib wd cwd srv ?W))"
    by simp
  from t have t2: "fst (test_script lib wd cwd srv ?W) = Inr t"
    by (simp add: test_script_again)
  from test_script_trace [OF r1 c] t a have 1: "trace ?W = script_trace lib wd srv (strip (universal_newlines c))"
    by simp
  from test_script_trace [OF r2 c'] t2
  have "trace (snd (test_script lib wd cwd srv ?W)) = trace ?W @ script_trace lib wd srv (strip (universal_newlines c))"
    by simp
  with 1 show "trace (snd (test_script lib wd cwd srv ?W)) = trace ?W @ trace ?W"
    by simp
qed

lemma mixed_run_file:
  "fs (snd (test_script sample_lib [''ws''] [''ws''] mixed_server ready_world))
     [''ws'', ''samples'', ''[GET]me.json''] = Some (File ''{}'')"
  by (simp add: run_defs sample_loads sample_dumps ready_world_def mixed_server_def strip_abc str_int_404
      range_request_def)

theorem rerun_leaves_same_files_witness:
  "fs (snd (test_script sample_lib [''ws''] [''ws''] mixed_server
         (snd (test_script sample_lib [''ws''] [''ws''] mixed_server ready_world))))
     [''ws'', ''samples'', ''[GET]me.json''] = Some (File ''{}'') \<and>
   trace (snd (test_script sample_lib [''ws''] [''ws''] mixed_server
         (snd (test_script sample_lib [''ws''] [''ws''] mixed_server ready_world)))) =
     trace (snd (test_script sample_lib [''ws''] [''ws''] mixed_server ready_world)) @
     trace (snd (test_script sample_lib [''ws''] [''ws''] mixed_server ready_world))"
proof -
  have fresh: "trace ready_world = []"
    by (simp add: ready_world_def)
  have fin: "\<exists>t. fst (test_script sample_lib [''ws''] [''ws''] mixed_server ready_world) = Inr t"
    by (simp add: mixed_run_completes)
  from rerun_leaves_same_files [of sample_lib "[''ws'']" "[''ws'']" mixed_server ready_world]
    fresh fin mixed_run_file
  show ?thesis
    by simp
qed

end
